theory Spec2Isabelle
  imports Main
begin

section \<open>Data model (supabase/schema.sql and the later migrations)\<close>

text \<open>
  Identifiers (UUIDs) are natural numbers.  A DATE is its day number (days since
  1970-01-01; the text form YYYY-MM-DD is the rendering of that number), a TIMESTAMPTZ
  is a number of milliseconds since the epoch.  SQL INTEGER columns and the sums over
  them are unbounded integers.  The surrogate \<open>id\<close> columns are left out: a table is a
  list of rows, and a list keeps equal rows apart.
\<close>

type_synonym uuid = nat
type_synonym date = int
type_synonym timestamp = int

record profile =
  p_id :: uuid
  p_username :: string

record group_row =
  g_id :: uuid
  g_name :: string
  g_invite_code :: string
  g_creator_id :: uuid

record group_member =
  gm_user_id :: uuid
  gm_group_id :: uuid
  gm_joined_at :: timestamp
  gm_is_admin :: bool

text \<open>
  \<open>daily_results\<close>: \<open>group_id\<close> is nullable since the personal-play migration,
  \<open>utc_date\<close> is the nullable column added by utc_scoring.sql.
\<close>

record daily_result =
  dr_user_id :: uuid
  dr_group_id :: "uuid option"
  dr_day_index :: int
  dr_guess_count :: int
  dr_solved :: bool
  dr_submitted_at :: timestamp
  dr_local_date :: date
  dr_timezone_offset :: int
  dr_utc_date :: "date option"

record score_adjustment =
  sa_user_id :: uuid
  sa_group_id :: uuid
  sa_adjustment :: int
  sa_reason :: "string option"
  sa_adjusted_by :: uuid
  sa_created_at :: timestamp

text \<open>A row of the relation \<open>leaderboard_scores\<close> (interface LeaderboardEntry).\<close>

record leaderboard_entry =
  lb_group_id :: uuid
  lb_user_id :: uuid
  lb_username :: string
  lb_total_score :: int
  lb_games_won :: int

text \<open>
  The column that groups competing results.  The repository has one script per choice:
  \<open>day_index\<close> (schema.sql, fix_leaderboard_view.sql), \<open>utc_date\<close> (utc_scoring.sql,
  realtime_scoring.sql) and \<open>local_date\<close> (local_date_scoring.sql and the reset script).
\<close>

datatype day_key = DayIndex | UtcDate | LocalDate

fun key_of :: "day_key \<Rightarrow> daily_result \<Rightarrow> int option" where
  "key_of DayIndex r = Some (dr_day_index r)"
| "key_of UtcDate r = dr_utc_date r"
| "key_of LocalDate r = Some (dr_local_date r)"

section \<open>The leaderboard query\<close>

text \<open>SQL equality in a join condition: a NULL operand never matches.\<close>

fun sql_eq :: "'a option \<Rightarrow> 'a option \<Rightarrow> bool" where
  "sql_eq (Some x) (Some y) = (x = y)"
| "sql_eq _ _ = False"

fun coalesce :: "'a option \<Rightarrow> 'a \<Rightarrow> 'a" where
  "coalesce (Some x) d = x"
| "coalesce None d = d"

text \<open>
  \<open>LEFT JOIN\<close> of one left row: the values of the matching right rows, or a single NULL
  when no right row matches.
\<close>

definition left_join :: "('r \<Rightarrow> bool) \<Rightarrow> ('r \<Rightarrow> 'v) \<Rightarrow> 'r list \<Rightarrow> 'v option list" where
  "left_join p v xs = (case filter p xs of [] \<Rightarrow> [None] | ys \<Rightarrow> map (\<lambda>x. Some (v x)) ys)"

text \<open>
  CTE \<open>daily_winners\<close>: \<open>SELECT group_id, <key>, MIN(guess_count) FROM daily_results
  WHERE solved = true GROUP BY group_id, <key>\<close>.  GROUP BY puts NULLs in one group.
\<close>

definition min_guesses :: "day_key \<Rightarrow> daily_result list \<Rightarrow> uuid option \<times> int option \<Rightarrow> int" where
  "min_guesses k solved_rows gd =
     min_list (map dr_guess_count
       (filter (\<lambda>r. dr_group_id r = fst gd \<and> key_of k r = snd gd) solved_rows))"

definition daily_winners ::
  "day_key \<Rightarrow> daily_result list \<Rightarrow> (uuid option \<times> int option \<times> int) list" where
  "daily_winners k rs =
     (let solved_rows = filter dr_solved rs
      in map (\<lambda>gd. (fst gd, snd gd, min_guesses k solved_rows gd))
             (remdups (map (\<lambda>r. (dr_group_id r, key_of k r)) solved_rows)))"

text \<open>
  CTE \<open>point_earners\<close>: \<open>daily_results dr JOIN daily_winners dw ON dr.group_id =
  dw.group_id AND dr.<key> = dw.<key> AND dr.guess_count = dw.min_guesses WHERE dr.solved\<close>.
  \<open>point_earner_rows\<close> is the joined \<open>dr\<close> rows, \<open>point_earners\<close> the selected columns
  \<open>(user_id, group_id, 1 AS points)\<close>.
\<close>

definition join_on :: "day_key \<Rightarrow> daily_result \<Rightarrow> uuid option \<times> int option \<times> int \<Rightarrow> bool" where
  "join_on k dr dw =
     (sql_eq (dr_group_id dr) (fst dw) \<and> sql_eq (key_of k dr) (fst (snd dw))
        \<and> dr_guess_count dr = snd (snd dw))"

definition point_earner_rows :: "day_key \<Rightarrow> daily_result list \<Rightarrow> daily_result list" where
  "point_earner_rows k rs =
     concat (map (\<lambda>dr. map (\<lambda>dw. dr) (filter (join_on k dr) (daily_winners k rs)))
                 (filter dr_solved rs))"

definition point_earners :: "day_key \<Rightarrow> daily_result list \<Rightarrow> (uuid \<times> uuid option \<times> int) list" where
  "point_earners k rs = map (\<lambda>dr. (dr_user_id dr, dr_group_id dr, 1)) (point_earner_rows k rs)"

text \<open>CTE \<open>earned_scores\<close>: \<open>SUM(points) ... GROUP BY group_id, user_id\<close>.\<close>

definition earned_scores :: "day_key \<Rightarrow> daily_result list \<Rightarrow> (uuid option \<times> uuid \<times> int) list" where
  "earned_scores k rs =
     (let pe = point_earners k rs
      in map (\<lambda>(g, u). (g, u, sum_list (map (\<lambda>(u', g', points). points)
                 (filter (\<lambda>(u', g', points). g' = g \<and> u' = u) pe))))
             (remdups (map (\<lambda>(u, g, points). (g, u)) pe)))"

text \<open>CTE \<open>adjustment_totals\<close>: \<open>SUM(adjustment) ... GROUP BY group_id, user_id\<close>.\<close>

definition adjustment_totals :: "score_adjustment list \<Rightarrow> (uuid \<times> uuid \<times> int) list" where
  "adjustment_totals adjs =
     map (\<lambda>(g, u). (g, u, sum_list (map sa_adjustment
            (filter (\<lambda>a. sa_group_id a = g \<and> sa_user_id a = u) adjs))))
         (remdups (map (\<lambda>a. (sa_group_id a, sa_user_id a)) adjs))"

text \<open>
  CTE \<open>all_members\<close> (\<open>SELECT DISTINCT group_id, user_id FROM group_members\<close>) and CTE
  \<open>current_members\<close> (the same without DISTINCT, fix_leaderboard_view.sql).
\<close>

definition all_members :: "group_member list \<Rightarrow> (uuid \<times> uuid) list" where
  "all_members ms = remdups (map (\<lambda>m. (gm_group_id m, gm_user_id m)) ms)"

definition current_members :: "group_member list \<Rightarrow> (uuid \<times> uuid) list" where
  "current_members ms = map (\<lambda>m. (gm_group_id m, gm_user_id m)) ms"

text \<open>
  The final SELECT: members JOIN profiles, LEFT JOIN earned_scores, LEFT JOIN
  adjustment_totals, with the two COALESCEs.
\<close>

definition leaderboard_select ::
  "(uuid \<times> uuid) list \<Rightarrow> profile list \<Rightarrow> (uuid option \<times> uuid \<times> int) list
     \<Rightarrow> (uuid \<times> uuid \<times> int) list \<Rightarrow> leaderboard_entry list" where
  "leaderboard_select members profs es ats =
     concat (map (\<lambda>(g, u).
       concat (map (\<lambda>p.
         concat (map (\<lambda>earned_points.
           map (\<lambda>adjustment_points.
                 \<lparr>lb_group_id = g, lb_user_id = u, lb_username = p_username p,
                  lb_total_score = coalesce earned_points 0 + coalesce adjustment_points 0,
                  lb_games_won = coalesce earned_points 0\<rparr>)
               (left_join (\<lambda>(g', u', s). g' = g \<and> u' = u) (\<lambda>(g', u', s). s) ats))
           (left_join (\<lambda>(g', u', s). sql_eq g' (Some g) \<and> u' = u) (\<lambda>(g', u', s). s) es)))
         (filter (\<lambda>p. p_id p = u) profs)))
       members)"


text \<open>
  \<open>ORDER BY total_score DESC\<close>.  SQL leaves the order of rows with equal scores open;
  here they keep their order.
\<close>

definition order_by_total_score_desc :: "leaderboard_entry list \<Rightarrow> leaderboard_entry list" where
  "order_by_total_score_desc es = sort_key (\<lambda>e. - lb_total_score e) es"

section \<open>The database\<close>

text \<open>
  The tables, and the catalog entry of the relation \<open>leaderboard_scores\<close>: \<open>lb_key\<close> is the
  grouping column of its definition; \<open>lb_snapshot = None\<close> is the deployment where it is a
  plain view (fix_leaderboard_view.sql, the reset script), \<open>Some rows\<close> the deployment where
  it is a materialized view holding \<open>rows\<close>, with the statement triggers of
  realtime_scoring.sql installed.  \<open>lb_refreshes\<close> counts the executions of
  \<open>refresh_leaderboard()\<close>.
\<close>

record database =
  profiles :: "profile list"
  groups :: "group_row list"
  group_members :: "group_member list"
  daily_results :: "daily_result list"
  score_adjustments :: "score_adjustment list"
  lb_key :: day_key
  lb_snapshot :: "leaderboard_entry list option"
  lb_refreshes :: nat

text \<open>
  The query of the materialized view (realtime_scoring.sql, local_date_scoring.sql):
  members are \<open>all_members\<close>, no ORDER BY.
\<close>

definition leaderboard_query :: "day_key \<Rightarrow> database \<Rightarrow> leaderboard_entry list" where
  "leaderboard_query k db =
     leaderboard_select (all_members (group_members db)) (profiles db)
       (earned_scores k (daily_results db)) (adjustment_totals (score_adjustments db))"

text \<open>
  The query of the plain view (fix_leaderboard_view.sql and the reset script): members are
  \<open>current_members\<close>, \<open>ORDER BY total_score DESC\<close>.
\<close>

definition leaderboard_view :: "day_key \<Rightarrow> database \<Rightarrow> leaderboard_entry list" where
  "leaderboard_view k db =
     order_by_total_score_desc
       (leaderboard_select (current_members (group_members db)) (profiles db)
          (earned_scores k (daily_results db)) (adjustment_totals (score_adjustments db)))"

text \<open>What a \<open>SELECT * FROM leaderboard_scores\<close> reads.\<close>

definition leaderboard_scores :: "database \<Rightarrow> leaderboard_entry list" where
  "leaderboard_scores db =
     (case lb_snapshot db of
        Some rows \<Rightarrow> rows
      | None \<Rightarrow> leaderboard_view (lb_key db) db)"

text \<open>
  \<open>refresh_leaderboard()\<close>: \<open>REFRESH MATERIALIZED VIEW CONCURRENTLY leaderboard_scores\<close>.
  The three triggers call it \<open>FOR EACH STATEMENT\<close> after INSERT or DELETE on
  \<open>daily_results\<close> and on \<open>score_adjustments\<close>; they exist in the materialized deployment.
\<close>

definition refresh_leaderboard :: "database \<Rightarrow> database" where
  "refresh_leaderboard db =
     db\<lparr>lb_snapshot := Some (leaderboard_query (lb_key db) db),
        lb_refreshes := Suc (lb_refreshes db)\<rparr>"

definition trigger_refresh_leaderboard :: "database \<Rightarrow> database" where
  "trigger_refresh_leaderboard db =
     (case lb_snapshot db of None \<Rightarrow> db | Some rows \<Rightarrow> refresh_leaderboard db)"

subsection \<open>Statements, with constraints and row level security\<close>

text \<open>
  A statement is issued by the authenticated user \<open>uid\<close> (\<open>auth.uid()\<close>).  The table
  privileges are taken as granted; the row level security policies decide which rows a
  statement may touch, and a table with row level security and no policy for a command
  admits no row to it.
\<close>

datatype db_error = RlsViolation | CheckViolation | UniqueViolation | ForeignKeyViolation

definition is_member :: "uuid \<Rightarrow> uuid \<Rightarrow> database \<Rightarrow> bool" where
  "is_member uid g db =
     list_ex (\<lambda>m. gm_group_id m = g \<and> gm_user_id m = uid) (group_members db)"

definition is_group_admin :: "uuid \<Rightarrow> uuid \<Rightarrow> database \<Rightarrow> bool" where
  "is_group_admin uid g db =
     list_ex (\<lambda>m. gm_group_id m = g \<and> gm_user_id m = uid \<and> gm_is_admin m) (group_members db)"

text \<open>
  \<open>UNIQUE(user_id, group_id, day_index)\<close> (a NULL \<open>group_id\<close> never conflicts) and the
  partial unique index \<open>(user_id, local_date) WHERE group_id IS NULL\<close>.
\<close>

definition unique_conflict :: "daily_result \<Rightarrow> daily_result \<Rightarrow> bool" where
  "unique_conflict r r' =
     (dr_user_id r' = dr_user_id r \<and> sql_eq (dr_group_id r') (dr_group_id r)
        \<and> dr_day_index r' = dr_day_index r)"

definition personal_conflict :: "daily_result \<Rightarrow> daily_result \<Rightarrow> bool" where
  "personal_conflict r r' =
     (dr_group_id r = None \<and> dr_group_id r' = None \<and> dr_user_id r' = dr_user_id r
        \<and> dr_local_date r' = dr_local_date r)"

text \<open>
  \<open>INSERT INTO daily_results\<close> by the authenticated user \<open>uid\<close>: policy
  \<open>WITH CHECK (auth.uid() = user_id)\<close>, \<open>CHECK (guess_count >= 1 AND guess_count <= 6)\<close>,
  the two unique indexes, the foreign keys to \<open>profiles\<close> and \<open>groups\<close>; then the
  statement trigger.
\<close>

definition insert_daily_result :: "uuid \<Rightarrow> daily_result \<Rightarrow> database \<Rightarrow> db_error + database" where
  "insert_daily_result uid r db =
     (if uid \<noteq> dr_user_id r then Inl RlsViolation
      else if \<not> (dr_guess_count r \<ge> 1 \<and> dr_guess_count r \<le> 6) then Inl CheckViolation
      else if list_ex (unique_conflict r) (daily_results db) then Inl UniqueViolation
      else if list_ex (personal_conflict r) (daily_results db) then Inl UniqueViolation
      else if \<not> list_ex (\<lambda>p. p_id p = dr_user_id r) (profiles db) then Inl ForeignKeyViolation
      else if (case dr_group_id r of None \<Rightarrow> False
               | Some g \<Rightarrow> \<not> list_ex (\<lambda>gr. g_id gr = g) (groups db)) then Inl ForeignKeyViolation
      else Inr (trigger_refresh_leaderboard (db\<lparr>daily_results := daily_results db @ [r]\<rparr>)))"

text \<open>
  \<open>DELETE FROM daily_results WHERE group_id = g\<close> by \<open>uid\<close>: policy "Admins can delete
  results in their groups (for reset)"; the statement trigger fires whatever the number
  of deleted rows.
\<close>

definition daily_result_deletable :: "uuid \<Rightarrow> database \<Rightarrow> daily_result \<Rightarrow> bool" where
  "daily_result_deletable uid db r =
     (case dr_group_id r of None \<Rightarrow> False | Some g \<Rightarrow> is_group_admin uid g db)"

definition delete_daily_results :: "uuid \<Rightarrow> uuid \<Rightarrow> database \<Rightarrow> database" where
  "delete_daily_results uid g db =
     trigger_refresh_leaderboard
       (db\<lparr>daily_results :=
            filter (\<lambda>r. \<not> (dr_group_id r = Some g \<and> daily_result_deletable uid db r))
                   (daily_results db)\<rparr>)"

text \<open>
  \<open>INSERT INTO score_adjustments\<close> by \<open>uid\<close>: policy "Admins can insert adjustments", the
  foreign keys of \<open>user_id\<close>, \<open>group_id\<close> and \<open>adjusted_by\<close>; then the statement trigger.
\<close>

definition insert_score_adjustment ::
  "uuid \<Rightarrow> score_adjustment \<Rightarrow> database \<Rightarrow> db_error + database" where
  "insert_score_adjustment uid a db =
     (if \<not> is_group_admin uid (sa_group_id a) db then Inl RlsViolation
      else if \<not> list_ex (\<lambda>p. p_id p = sa_user_id a) (profiles db)
              \<or> \<not> list_ex (\<lambda>gr. g_id gr = sa_group_id a) (groups db)
              \<or> \<not> list_ex (\<lambda>p. p_id p = sa_adjusted_by a) (profiles db)
           then Inl ForeignKeyViolation
      else Inr (trigger_refresh_leaderboard
                  (db\<lparr>score_adjustments := score_adjustments db @ [a]\<rparr>)))"

text \<open>
  \<open>DELETE FROM score_adjustments WHERE group_id = g\<close> by \<open>uid\<close>.  Row level security is
  enabled on \<open>score_adjustments\<close> and its only policies are FOR SELECT and FOR INSERT: no
  policy admits a row to a DELETE.  The statement trigger fires all the same.
\<close>

definition score_adjustment_deletable :: "uuid \<Rightarrow> database \<Rightarrow> score_adjustment \<Rightarrow> bool" where
  "score_adjustment_deletable uid db a = False"

definition delete_score_adjustments :: "uuid \<Rightarrow> uuid \<Rightarrow> database \<Rightarrow> database" where
  "delete_score_adjustments uid g db =
     trigger_refresh_leaderboard
       (db\<lparr>score_adjustments :=
            filter (\<lambda>a. \<not> (sa_group_id a = g \<and> score_adjustment_deletable uid db a))
                   (score_adjustments db)\<rparr>)"

text \<open>
  \<open>INSERT INTO group_members\<close> (policy \<open>WITH CHECK (auth.uid() = user_id)\<close>,
  \<open>UNIQUE(user_id, group_id)\<close>, foreign keys) and \<open>DELETE FROM group_members WHERE user_id
  = u AND group_id = g\<close> (policy \<open>USING (auth.uid() = user_id)\<close>).  No refresh trigger is
  defined on \<open>group_members\<close>.
\<close>

definition insert_group_member :: "uuid \<Rightarrow> group_member \<Rightarrow> database \<Rightarrow> db_error + database" where
  "insert_group_member uid m db =
     (if uid \<noteq> gm_user_id m then Inl RlsViolation
      else if is_member (gm_user_id m) (gm_group_id m) db then Inl UniqueViolation
      else if \<not> list_ex (\<lambda>p. p_id p = gm_user_id m) (profiles db)
              \<or> \<not> list_ex (\<lambda>gr. g_id gr = gm_group_id m) (groups db)
           then Inl ForeignKeyViolation
      else Inr (db\<lparr>group_members := group_members db @ [m]\<rparr>))"

definition delete_group_member :: "uuid \<Rightarrow> uuid \<Rightarrow> uuid \<Rightarrow> database \<Rightarrow> database" where
  "delete_group_member uid u g db =
     db\<lparr>group_members :=
          filter (\<lambda>m. \<not> (gm_user_id m = u \<and> gm_group_id m = g \<and> uid = gm_user_id m))
                 (group_members db)\<rparr>"

section \<open>The client (hooks and components)\<close>

text \<open>
  The functions are those of a configured client with a signed-in user \<open>uid\<close>; their
  early returns for a missing client or user touch nothing.
\<close>

text \<open>
  supabase-js \<open>.single()\<close> and \<open>.maybeSingle()\<close>: the row when the query returns exactly
  one row; otherwise \<open>data\<close> is null (with an error, except for \<open>maybeSingle\<close> on no row).
\<close>

fun single :: "'a list \<Rightarrow> 'a option" where
  "single [x] = Some x"
| "single _ = None"

text \<open>
  The client's clock: the instant \<open>Date.now()\<close> and the value of \<open>getTimezoneOffset()\<close>
  (minutes, UTC minus local time), taken as constant over the instants a call looks at.
\<close>

record clock =
  now :: timestamp
  tz_offset :: int

definition ms_per_day :: int where
  "ms_per_day = 24 * 60 * 60 * 1000"

definition local_time :: "clock \<Rightarrow> timestamp \<Rightarrow> int" where
  "local_time c t = t - tz_offset c * 60000"

text \<open>
  useGameResults.ts \<open>getLocalDate\<close>: year, month and day of the local time, that is the
  day number of the local time.
\<close>

definition getLocalDate :: "clock \<Rightarrow> date" where
  "getLocalDate c = local_time c (now c) div ms_per_day"

definition getTimezoneOffset :: "clock \<Rightarrow> int" where
  "getTimezoneOffset c = tz_offset c"

text \<open>
  The earlier version of the hook: \<open>getLocalDate\<close> and \<open>getUtcDate\<close> both return
  \<open>now.toISOString().split('T')[0]\<close>, the day number of the UTC time.
\<close>

definition getLocalDate_iso :: "clock \<Rightarrow> date" where
  "getLocalDate_iso c = now c div ms_per_day"

text \<open>
  \<open>setHours(0, 0, 0, 0)\<close>: the instant of the local midnight that starts the day of \<open>t\<close>,
  at the one offset of the clock.  The source applies to each instant the offset in force
  at that instant, so across a daylight-saving change between joining and submitting its
  day index can be one less than this one.
\<close>

definition start_of_local_day :: "clock \<Rightarrow> timestamp \<Rightarrow> timestamp" where
  "start_of_local_day c t = t - local_time c t mod ms_per_day"

definition calculateDayIndex :: "clock \<Rightarrow> timestamp \<Rightarrow> int" where
  "calculateDayIndex c joinedAt =
     (start_of_local_day c (now c) - start_of_local_day c joinedAt) div ms_per_day"

record group_with_membership =
  gwm_id :: uuid
  gwm_name :: string
  gwm_is_admin :: bool
  gwm_joined_at :: timestamp

record submit_params =
  guessCount :: int
  solved :: bool

text \<open>
  What a SELECT on \<open>daily_results\<close> shows to \<open>uid\<close>: policies "Authenticated users can view
  results" and "Users can view their own personal plays".
\<close>

definition daily_result_visible :: "uuid \<Rightarrow> database \<Rightarrow> daily_result \<Rightarrow> bool" where
  "daily_result_visible uid db r =
     (case dr_group_id r of None \<Rightarrow> uid = dr_user_id r | Some g \<Rightarrow> is_member uid g db)"

text \<open>
  \<open>submitPersonalResult\<close>: the result and the database after it; \<open>Inl\<close> carries the
  error of a failed insert.
\<close>

definition submitPersonalResult ::
  "uuid \<Rightarrow> clock \<Rightarrow> submit_params \<Rightarrow> database \<Rightarrow> (db_error + unit) \<times> database" where
  "submitPersonalResult uid c params db =
     (let localDate = getLocalDate c;
          timezoneOffset = getTimezoneOffset c;
          existing = single (filter (\<lambda>r. daily_result_visible uid db r \<and> dr_user_id r = uid
                        \<and> dr_group_id r = None \<and> dr_local_date r = localDate) (daily_results db))
      in if existing \<noteq> None then (Inr (), db)
         else (case insert_daily_result uid
                      \<lparr>dr_user_id = uid, dr_group_id = None, dr_day_index = 0,
                       dr_guess_count = guessCount params, dr_solved = solved params,
                       dr_submitted_at = now c, dr_local_date = localDate,
                       dr_timezone_offset = timezoneOffset, dr_utc_date = None\<rparr> db of
                 Inl e \<Rightarrow> (Inl e, db)
               | Inr db' \<Rightarrow> (Inr (), db')))"

text \<open>
  The loop of \<open>submitResult\<close> over the groups; the state is the database, the counter
  \<open>submitted\<close> and the list \<open>errors\<close> (group name and error of each failed insert).
\<close>

fun submit_loop ::
  "uuid \<Rightarrow> clock \<Rightarrow> submit_params \<Rightarrow> group_with_membership list
     \<Rightarrow> database \<times> nat \<times> (string \<times> db_error) list
     \<Rightarrow> database \<times> nat \<times> (string \<times> db_error) list" where
  "submit_loop uid c params [] st = st"
| "submit_loop uid c params (grp # rest) (db, submitted, errors) =
     (let dayIndex = calculateDayIndex c (gwm_joined_at grp);
          existing = single (filter (\<lambda>r. daily_result_visible uid db r \<and> dr_user_id r = uid
                        \<and> dr_group_id r = Some (gwm_id grp) \<and> dr_day_index r = dayIndex)
                        (daily_results db))
      in if existing \<noteq> None then submit_loop uid c params rest (db, submitted, errors)
         else (case insert_daily_result uid
                      \<lparr>dr_user_id = uid, dr_group_id = Some (gwm_id grp),
                       dr_day_index = dayIndex,
                       dr_guess_count = guessCount params, dr_solved = solved params,
                       dr_submitted_at = now c, dr_local_date = getLocalDate c,
                       dr_timezone_offset = getTimezoneOffset c, dr_utc_date = None\<rparr> db of
                 Inl e \<Rightarrow> submit_loop uid c params rest
                            (db, submitted, errors @ [(gwm_name grp, e)])
               | Inr db' \<Rightarrow> submit_loop uid c params rest (db', Suc submitted, errors)))"

record submit_outcome =
  success :: bool
  submitted :: nat
  errors :: "(string \<times> db_error) list"

definition submitResult ::
  "uuid \<Rightarrow> clock \<Rightarrow> group_with_membership list \<Rightarrow> submit_params \<Rightarrow> database
     \<Rightarrow> submit_outcome \<times> database" where
  "submitResult uid c gs params db =
     (if gs = [] then
        (case submitPersonalResult uid c params db of
           (Inr u, db') \<Rightarrow> (\<lparr>success = True, submitted = 1, errors = []\<rparr>, db')
         | (Inl e, db') \<Rightarrow> (\<lparr>success = False, submitted = 0, errors = [([], e)]\<rparr>, db'))
      else
        (case submit_loop uid c params gs (db, 0, []) of
           (db', n, errs) \<Rightarrow> (\<lparr>success = (errs = []), submitted = n, errors = errs\<rparr>, db')))"

text \<open>
  useGroups.ts \<open>joinGroup\<close>, on the invite code as looked up (lower-cased and trimmed),
  and \<open>leaveGroup\<close>.  \<open>joined_at\<close> and \<open>is_admin\<close> take their column defaults.
\<close>

definition joinGroup :: "uuid \<Rightarrow> timestamp \<Rightarrow> string \<Rightarrow> database \<Rightarrow> bool \<times> database" where
  "joinGroup uid t code db =
     (case single (filter (\<lambda>gr. g_invite_code gr = code) (groups db)) of
        None \<Rightarrow> (False, db)
      | Some gr \<Rightarrow>
          (if single (filter (\<lambda>m. gm_user_id m = uid \<and> gm_group_id m = g_id gr)
                        (group_members db)) \<noteq> None
           then (False, db)
           else (case insert_group_member uid
                        \<lparr>gm_user_id = uid, gm_group_id = g_id gr, gm_joined_at = t,
                         gm_is_admin = False\<rparr> db of
                   Inl e \<Rightarrow> (False, db)
                 | Inr db' \<Rightarrow> (True, db'))))"

definition leaveGroup :: "uuid \<Rightarrow> uuid \<Rightarrow> database \<Rightarrow> bool \<times> database" where
  "leaveGroup uid groupId db = (True, delete_group_member uid uid groupId db)"

text \<open>
  Leaderboard.tsx.  \<open>getLeaderboard\<close> is the \<open>leaderboardData\<close> of \<open>fetchLeaderboard\<close>:
  \<open>from('leaderboard_scores').select('*').eq('group_id', g).order('total_score', desc)\<close>.
\<close>

definition getLeaderboard :: "uuid \<Rightarrow> database \<Rightarrow> leaderboard_entry list" where
  "getLeaderboard g db =
     order_by_total_score_desc (filter (\<lambda>e. lb_group_id e = g) (leaderboard_scores db))"

definition handleAdjustScore ::
  "uuid \<Rightarrow> timestamp \<Rightarrow> uuid \<Rightarrow> uuid \<Rightarrow> int \<Rightarrow> database \<Rightarrow> database" where
  "handleAdjustScore uid t g targetUserId adjustment db =
     (if adjustment = 0 then db
      else (case insert_score_adjustment uid
                   \<lparr>sa_user_id = targetUserId, sa_group_id = g, sa_adjustment = adjustment,
                    sa_reason = Some (if adjustment > 0 then ''Manual increase''
                                      else ''Manual decrease''),
                    sa_adjusted_by = uid, sa_created_at = t\<rparr> db of
              Inl e \<Rightarrow> db
            | Inr db' \<Rightarrow> db'))"

definition handleResetScores :: "uuid \<Rightarrow> uuid \<Rightarrow> database \<Rightarrow> database" where
  "handleResetScores uid g db = delete_score_adjustments uid g (delete_daily_results uid g db)"

section \<open>UTC-12 finalization (utc_scoring.sql)\<close>

text \<open>
  \<open>utc_date + INTERVAL '1 day' + INTERVAL '12 hours'\<close>, with the session time zone UTC.
  A NULL \<open>utc_date\<close> makes the comparison NULL, and the row is not selected.
\<close>

definition finalizes_at :: "date \<Rightarrow> timestamp" where
  "finalizes_at d = d * ms_per_day + ms_per_day + 12 * 60 * 60 * 1000"

definition is_day_finalized :: "timestamp \<Rightarrow> date \<Rightarrow> bool" where
  "is_day_finalized t check_date = (t \<ge> finalizes_at check_date)"

definition finalized_days :: "timestamp \<Rightarrow> daily_result list \<Rightarrow> daily_result list" where
  "finalized_days t rs =
     filter (\<lambda>r. case dr_utc_date r of None \<Rightarrow> False | Some d \<Rightarrow> t \<ge> finalizes_at d) rs"

definition leaderboard_scores_utc :: "timestamp \<Rightarrow> database \<Rightarrow> leaderboard_entry list" where
  "leaderboard_scores_utc t db =
     order_by_total_score_desc
       (leaderboard_select (all_members (group_members db)) (profiles db)
          (earned_scores UtcDate (finalized_days t (daily_results db)))
          (adjustment_totals (score_adjustments db)))"

section \<open>Notions of the specification\<close>

text \<open>The solved Results of a group on a day key.\<close>

definition solved_on :: "day_key \<Rightarrow> uuid \<Rightarrow> int \<Rightarrow> daily_result list \<Rightarrow> daily_result list" where
  "solved_on k g d rs =
     filter (\<lambda>r. dr_solved r \<and> dr_group_id r = Some g \<and> key_of k r = Some d) rs"

text \<open>
  The winner set as the specification words it: the users with a solved Result whose
  guess count is the minimum over the solved Results of the group and day key; empty when
  there is no solved Result.
\<close>

definition spec_winners :: "day_key \<Rightarrow> uuid \<Rightarrow> int \<Rightarrow> daily_result list \<Rightarrow> uuid set" where
  "spec_winners k g d rs =
     (let s = solved_on k g d rs
      in if s = [] then {}
         else set (map dr_user_id
                (filter (\<lambda>r. dr_guess_count r = Min (set (map dr_guess_count s))) s)))"

text \<open>The winner set as the query computes it: the users of the point earners of the day.\<close>

definition winner_set :: "day_key \<Rightarrow> uuid \<Rightarrow> int \<Rightarrow> daily_result list \<Rightarrow> uuid set" where
  "winner_set k g d rs =
     set (map dr_user_id
       (filter (\<lambda>r. dr_group_id r = Some g \<and> key_of k r = Some d) (point_earner_rows k rs)))"

text \<open>A row earns a point when it is solved and meets the minimum of its group and day.\<close>

definition is_point_earner :: "day_key \<Rightarrow> daily_result list \<Rightarrow> daily_result \<Rightarrow> bool" where
  "is_point_earner k rs r =
     (case (dr_group_id r, key_of k r) of
        (Some g, Some d) \<Rightarrow>
          dr_solved r \<and> dr_guess_count r = min_list (map dr_guess_count (solved_on k g d rs))
      | _ \<Rightarrow> False)"

text \<open>The example of the specification: group 7 with members A = 1, B = 2, C = 3.\<close>

definition ex_result :: "uuid \<Rightarrow> date \<Rightarrow> int \<Rightarrow> bool \<Rightarrow> daily_result" where
  "ex_result u d n s =
     \<lparr>dr_user_id = u, dr_group_id = Some 7, dr_day_index = d - 100, dr_guess_count = n,
      dr_solved = s, dr_submitted_at = d * ms_per_day, dr_local_date = d,
      dr_timezone_offset = 0, dr_utc_date = Some d\<rparr>"

definition ex_results :: "daily_result list" where
  "ex_results = [ex_result 1 100 3 True, ex_result 2 100 3 True, ex_result 3 100 6 False,
                 ex_result 1 101 5 True]"

text \<open>The Results that earn a member a point, and the sum of a member's adjustments.\<close>

definition wins :: "day_key \<Rightarrow> uuid \<Rightarrow> uuid \<Rightarrow> daily_result list \<Rightarrow> daily_result list" where
  "wins k g u rs =
     filter (\<lambda>r. dr_user_id r = u \<and> dr_group_id r = Some g) (point_earner_rows k rs)"

definition adjustment_sum :: "uuid \<Rightarrow> uuid \<Rightarrow> score_adjustment list \<Rightarrow> int" where
  "adjustment_sum g u adjs =
     sum_list (map sa_adjustment (filter (\<lambda>a. sa_group_id a = g \<and> sa_user_id a = u) adjs))"

text \<open>The entry the query builds for a member \<open>u\<close> of \<open>g\<close> with profile \<open>p\<close>.\<close>

definition entry_of ::
  "day_key \<Rightarrow> daily_result list \<Rightarrow> score_adjustment list \<Rightarrow> uuid \<Rightarrow> uuid \<Rightarrow> profile
     \<Rightarrow> leaderboard_entry" where
  "entry_of k rs adjs g u p =
     \<lparr>lb_group_id = g, lb_user_id = u, lb_username = p_username p,
      lb_total_score = int (length (wins k g u rs)) + adjustment_sum g u adjs,
      lb_games_won = int (length (wins k g u rs))\<rparr>"

text \<open>
  The relation \<open>leaderboard_scores\<close> reflects the tables: always so for the plain view; for
  the materialized view, when its rows are those of the query on the current tables.
\<close>

definition up_to_date :: "database \<Rightarrow> bool" where
  "up_to_date db =
     (case lb_snapshot db of None \<Rightarrow> True
      | Some rows \<Rightarrow> rows = leaderboard_query (lb_key db) db)"

text \<open>The foreign key \<open>group_members.user_id REFERENCES profiles(id)\<close>.\<close>

definition member_profiles_exist :: "database \<Rightarrow> bool" where
  "member_profiles_exist db =
     list_all (\<lambda>m. list_ex (\<lambda>p. p_id p = gm_user_id m) (profiles db)) (group_members db)"

text \<open>
  The day keys that occur in a group's Results, and those among them on which \<open>u\<close> is a
  winner: the specification's "day keys where user is in winners".
\<close>

definition day_keys :: "day_key \<Rightarrow> uuid \<Rightarrow> daily_result list \<Rightarrow> int list" where
  "day_keys k g rs =
     remdups (List.map_filter (key_of k) (filter (\<lambda>r. dr_group_id r = Some g) rs))"

definition days_won :: "day_key \<Rightarrow> uuid \<Rightarrow> uuid \<Rightarrow> daily_result list \<Rightarrow> int list" where
  "days_won k g u rs = filter (\<lambda>d. u \<in> winner_set k g d rs) (day_keys k g rs)"

text \<open>The data model's invariant: at most one Result per user, group and day key.\<close>

definition one_result_per_day :: "day_key \<Rightarrow> daily_result list \<Rightarrow> bool" where
  "one_result_per_day k rs =
     distinct (map (\<lambda>r. (dr_user_id r, dr_group_id r, key_of k r))
                   (filter (\<lambda>r. dr_group_id r \<noteq> None \<and> key_of k r \<noteq> None) rs))"

definition no_results :: "uuid \<Rightarrow> uuid \<Rightarrow> database \<Rightarrow> bool" where
  "no_results u g db =
     (filter (\<lambda>r. dr_user_id r = u \<and> dr_group_id r = Some g) (daily_results db) = [])"

definition no_adjustments :: "uuid \<Rightarrow> uuid \<Rightarrow> database \<Rightarrow> bool" where
  "no_adjustments u g db =
     (filter (\<lambda>a. sa_group_id a = g \<and> sa_user_id a = u) (score_adjustments db) = [])"

text \<open>
  The example database: the specification's example (C adjusted by +2), with a fourth
  member D = 4 who has no Result and no Adjustment; A is the group's admin.
\<close>

definition ex_db :: database where
  "ex_db =
     \<lparr>profiles = [\<lparr>p_id = 1, p_username = ''A''\<rparr>, \<lparr>p_id = 2, p_username = ''B''\<rparr>,
                  \<lparr>p_id = 3, p_username = ''C''\<rparr>, \<lparr>p_id = 4, p_username = ''D''\<rparr>],
      groups = [\<lparr>g_id = 7, g_name = ''G'', g_invite_code = ''abc123'', g_creator_id = 1\<rparr>],
      group_members =
        [\<lparr>gm_user_id = 1, gm_group_id = 7, gm_joined_at = 100 * ms_per_day, gm_is_admin = True\<rparr>,
         \<lparr>gm_user_id = 2, gm_group_id = 7, gm_joined_at = 100 * ms_per_day, gm_is_admin = False\<rparr>,
         \<lparr>gm_user_id = 3, gm_group_id = 7, gm_joined_at = 100 * ms_per_day, gm_is_admin = False\<rparr>,
         \<lparr>gm_user_id = 4, gm_group_id = 7, gm_joined_at = 101 * ms_per_day, gm_is_admin = False\<rparr>],
      daily_results = ex_results,
      score_adjustments =
        [\<lparr>sa_user_id = 3, sa_group_id = 7, sa_adjustment = 2, sa_reason = Some ''Manual increase'',
          sa_adjusted_by = 1, sa_created_at = 102 * ms_per_day\<rparr>],
      lb_key = LocalDate, lb_snapshot = None, lb_refreshes = 0\<rparr>"

text \<open>
  The mutating events of the Result store and of the Adjustment store, as statements by
  a user; \<open>run\<close> executes a sequence of them, a rejected statement leaving the database
  as it was.
\<close>

datatype statement =
    InsertResult uuid daily_result
  | DeleteResults uuid uuid
  | InsertAdjustment uuid score_adjustment
  | DeleteAdjustments uuid uuid

fun execute :: "statement \<Rightarrow> database \<Rightarrow> db_error + database" where
  "execute (InsertResult uid r) db = insert_daily_result uid r db"
| "execute (DeleteResults uid g) db = Inr (delete_daily_results uid g db)"
| "execute (InsertAdjustment uid a) db = insert_score_adjustment uid a db"
| "execute (DeleteAdjustments uid g) db = Inr (delete_score_adjustments uid g db)"


text \<open>The example database in the materialized deployment, after the initial refresh.\<close>

definition ex_mv :: database where
  "ex_mv = refresh_leaderboard (ex_db\<lparr>lb_snapshot := Some []\<rparr>)"


definition ex_group :: group_row where
  "ex_group = \<lparr>g_id = 7, g_name = ''G'', g_invite_code = ''abc123'', g_creator_id = 1\<rparr>"

text \<open>
  What the unique indexes of \<open>daily_results\<close> maintain: one row per user, group and
  \<open>day_index\<close> among the group rows, one row per user and \<open>local_date\<close> among the personal
  plays.
\<close>

definition results_unique :: "daily_result list \<Rightarrow> bool" where
  "results_unique rs =
     (distinct (map (\<lambda>r. (dr_user_id r, dr_group_id r, dr_day_index r))
                    (filter (\<lambda>r. dr_group_id r \<noteq> None) rs))
      \<and> distinct (map (\<lambda>r. (dr_user_id r, dr_local_date r))
                      (filter (\<lambda>r. dr_group_id r = None) rs)))"

text \<open>
  The columns of a Result that the local-date query reads, and the point-earner test
  written on these columns alone.
\<close>

definition grouping_columns :: "daily_result \<Rightarrow> uuid \<times> uuid option \<times> date \<times> int \<times> bool" where
  "grouping_columns r =
     (dr_user_id r, dr_group_id r, dr_local_date r, dr_guess_count r, dr_solved r)"

definition min_on_columns ::
  "(uuid \<times> uuid option \<times> date \<times> int \<times> bool) list \<Rightarrow> uuid \<Rightarrow> date \<Rightarrow> int" where
  "min_on_columns ps g d =
     min_list (map (\<lambda>x. fst (snd (snd (snd x))))
       (filter (\<lambda>y. snd (snd (snd (snd y))) \<and> fst (snd y) = Some g \<and> fst (snd (snd y)) = d) ps))"

definition earns_on_columns ::
  "(uuid \<times> uuid option \<times> date \<times> int \<times> bool) list
     \<Rightarrow> uuid \<times> uuid option \<times> date \<times> int \<times> bool \<Rightarrow> bool" where
  "earns_on_columns ps x =
     (case fst (snd x) of None \<Rightarrow> False
      | Some g \<Rightarrow> snd (snd (snd (snd x)))
          \<and> fst (snd (snd (snd x))) = min_on_columns ps g (fst (snd (snd x))))"

text \<open>
  A scenario on the example group: B joins on day 98 and submits on day 100, leaves, joins
  again on day 100 and submits once more.  \<open>ex5_member t\<close> is the group as the client
  holds it for a membership with \<open>joined_at = t\<close>.
\<close>

definition ex5_member :: "timestamp \<Rightarrow> group_with_membership" where
  "ex5_member t = \<lparr>gwm_id = 7, gwm_name = ''G'', gwm_is_admin = False, gwm_joined_at = t\<rparr>"

definition ex5_db0 :: database where
  "ex5_db0 = ex_db\<lparr>group_members := [\<lparr>gm_user_id = 1, gm_group_id = 7,
                 gm_joined_at = 90 * ms_per_day, gm_is_admin = True\<rparr>],
               daily_results := [], score_adjustments := []\<rparr>"

definition ex5_db1 :: database where
  "ex5_db1 = snd (joinGroup 2 (98 * ms_per_day) ''abc123'' ex5_db0)"

definition ex5_db2 :: database where
  "ex5_db2 = snd (submitResult 2 \<lparr>now = 100 * ms_per_day + 3600000, tz_offset = 0\<rparr>
                    [ex5_member (98 * ms_per_day)] \<lparr>guessCount = 3, solved = True\<rparr> ex5_db1)"

definition ex5_db3 :: database where
  "ex5_db3 = snd (joinGroup 2 (100 * ms_per_day + 7200000) ''abc123''
                    (snd (leaveGroup 2 7 ex5_db2)))"

definition ex5_db4 :: database where
  "ex5_db4 = snd (submitResult 2 \<lparr>now = 100 * ms_per_day + 10800000, tz_offset = 0\<rparr>
                    [ex5_member (100 * ms_per_day + 7200000)]
                    \<lparr>guessCount = 3, solved = True\<rparr> ex5_db3)"

text \<open>
  A client five hours behind UTC, at 01:00 UTC of day 100 (20:00 of day 99, local time),
  and the example Results with other submission instants and no \<open>utc_date\<close>.
\<close>

definition ex_clock :: clock where
  "ex_clock = \<lparr>now = 100 * ms_per_day + 3600000, tz_offset = 300\<rparr>"

definition ex_results_moved :: "daily_result list" where
  "ex_results_moved = map (\<lambda>r. r\<lparr>dr_submitted_at := 0, dr_utc_date := None\<rparr>) ex_results"

text \<open>
  The materialized deployment around membership changes: the scenario's starting database
  after an initial refresh, then B's join; and the example database after B has left.
\<close>

definition ex5_mv :: database where
  "ex5_mv = refresh_leaderboard (ex5_db0\<lparr>lb_snapshot := Some []\<rparr>)"

definition ex5_mv_joined :: database where
  "ex5_mv_joined = snd (joinGroup 2 (98 * ms_per_day) ''abc123'' ex5_mv)"

definition ex_mv_left :: database where
  "ex_mv_left = snd (leaveGroup 2 7 ex_mv)"

section \<open>Winner selection\<close>

lemma filter_keyed_distinct:
  "distinct ks \<Longrightarrow>
   filter (\<lambda>x. P (fst x, fst (snd x)) \<and> c = snd (snd x)) (map (\<lambda>gd. (fst gd, snd gd, f gd)) ks) =
   map (\<lambda>gd. (fst gd, snd gd, c)) (filter (\<lambda>gd. P gd \<and> c = f gd) ks)"
  by (induction ks) auto

lemma filter_eq_distinct:
  "distinct ks \<Longrightarrow> filter (\<lambda>x. x = a \<and> Q x) ks = (if a \<in> set ks \<and> Q a then [a] else [])"
  by (induction ks) auto

lemma sql_eq_Some: "sql_eq (Some x) y = (y = Some x)"
  by (cases y) auto

lemma min_guesses_solved_on:
  "min_guesses k (filter dr_solved rs) (Some g, Some d)
   = min_list (map dr_guess_count (solved_on k g d rs))"
proof -
  have "filter (\<lambda>r. dr_group_id r = Some g \<and> key_of k r = Some d) (filter dr_solved rs)
        = solved_on k g d rs"
    unfolding solved_on_def filter_filter by (rule filter_cong) auto
  then show ?thesis by (simp add: min_guesses_def)
qed

lemma join_on_Some:
  "dr_group_id dr = Some g \<Longrightarrow> key_of k dr = Some d \<Longrightarrow>
   join_on k dr = (\<lambda>x. (fst x, fst (snd x)) = (Some g, Some d) \<and> dr_guess_count dr = snd (snd x))"
  by (auto simp: join_on_def sql_eq_Some fun_eq_iff)

lemma join_on_None:
  "dr_group_id dr = None \<or> key_of k dr = None \<Longrightarrow> filter (join_on k dr) xs = []"
  by (auto simp: join_on_def filter_empty_conv)

text \<open>A solved row joins with at most one row of \<open>daily_winners\<close>.\<close>

lemma winners_of_row:
  assumes "dr_solved dr" "dr \<in> set rs"
  shows "filter (join_on k dr) (daily_winners k rs)
         = (if is_point_earner k rs dr
            then [(dr_group_id dr, key_of k dr, dr_guess_count dr)] else [])"
proof (cases "dr_group_id dr = None \<or> key_of k dr = None")
  case True
  then have "\<not> is_point_earner k rs dr"
    by (auto simp: is_point_earner_def split: option.splits)
  with True show ?thesis by (simp add: join_on_None)
next
  case False
  then obtain g d where g: "dr_group_id dr = Some g" and d: "key_of k dr = Some d" by auto
  let ?ks = "remdups (map (\<lambda>r. (dr_group_id r, key_of k r)) (filter dr_solved rs))"
  have mem: "(Some g, Some d) \<in> set ?ks"
    using assms g d by (force simp: image_iff)
  have dist: "distinct ?ks" by simp
  have "filter (join_on k dr) (daily_winners k rs)
      = map (\<lambda>gd. (fst gd, snd gd, dr_guess_count dr))
          (filter (\<lambda>gd. gd = (Some g, Some d)
                      \<and> dr_guess_count dr = min_guesses k (filter dr_solved rs) gd) ?ks)"
    unfolding join_on_Some[OF g d] daily_winners_def Let_def
    by (rule filter_keyed_distinct[OF dist, where P = "\<lambda>gd. gd = (Some g, Some d)"])
  also have "\<dots> = (if dr_guess_count dr = min_guesses k (filter dr_solved rs) (Some g, Some d)
                    then [(Some g, Some d, dr_guess_count dr)] else [])"
    unfolding filter_eq_distinct[OF dist] using mem by simp
  finally show ?thesis
    using assms(1) by (simp add: min_guesses_solved_on is_point_earner_def g d)
qed

lemma point_earner_rows_aux:
  "set xs \<subseteq> set rs \<Longrightarrow>
   concat (map (\<lambda>dr. map (\<lambda>dw. dr) (filter (join_on k dr) (daily_winners k rs)))
               (filter dr_solved xs))
   = filter (is_point_earner k rs) (filter dr_solved xs)"
proof (induction xs)
  case Nil
  then show ?case by simp
next
  case (Cons x xs)
  then have IH: "concat (map (\<lambda>dr. map (\<lambda>dw. dr) (filter (join_on k dr) (daily_winners k rs)))
                    (filter dr_solved xs))
                 = filter (is_point_earner k rs) (filter dr_solved xs)"
    and x: "x \<in> set rs" by auto
  show ?case
  proof (cases "dr_solved x")
    case True
    show ?thesis using IH True by (simp add: winners_of_row[OF True x])
  next
    case False
    then show ?thesis using IH by simp
  qed
qed

lemma point_earner_rows_filter:
  "point_earner_rows k rs = filter (is_point_earner k rs) (filter dr_solved rs)"
  unfolding point_earner_rows_def by (rule point_earner_rows_aux) simp

lemma solved_on_filter_solved: "solved_on k g d (filter dr_solved rs) = solved_on k g d rs"
  unfolding solved_on_def filter_filter by (rule filter_cong) auto

lemma is_point_earner_filter_solved:
  "is_point_earner k (filter dr_solved rs) = is_point_earner k rs"
  by (auto simp: fun_eq_iff is_point_earner_def solved_on_filter_solved split: option.splits)

lemma point_earner_rows_filter_solved:
  "point_earner_rows k (filter dr_solved rs) = point_earner_rows k rs"
  by (simp add: point_earner_rows_filter is_point_earner_filter_solved)

lemma winning_rows_on:
  "filter (\<lambda>r. dr_group_id r = Some g \<and> key_of k r = Some d) (point_earner_rows k rs)
   = filter (\<lambda>r. dr_guess_count r = min_list (map dr_guess_count (solved_on k g d rs)))
       (solved_on k g d rs)"
  unfolding point_earner_rows_filter solved_on_def filter_filter
  by (rule filter_cong) (auto simp: is_point_earner_def solved_on_def)

lemma winner_set_spec: "winner_set k g d rs = spec_winners k g d rs"
proof (cases "solved_on k g d rs = []")
  case True
  then show ?thesis by (simp add: winner_set_def spec_winners_def winning_rows_on)
next
  case False
  then have "min_list (map dr_guess_count (solved_on k g d rs))
           = Min (set (map dr_guess_count (solved_on k g d rs)))"
    by (simp add: min_list_Min)
  with False show ?thesis
    by (simp add: winner_set_def spec_winners_def winning_rows_on Let_def)
qed

text \<open>
  Claim C1.  For every group \<open>g\<close> and day key \<open>d\<close> (for the local date and for the other
  grouping columns alike), the winners the query computes are exactly the users with a
  solved Result whose guess count is the minimum over the solved Results of \<open>(g, d)\<close>;
  unsolved Results do not change the winner set; without a solved Result the winner set
  is empty.
\<close>

theorem C1_winner_set:
  "winner_set k g d rs = spec_winners k g d rs
   \<and> winner_set k g d rs = winner_set k g d (filter dr_solved rs)
   \<and> (solved_on k g d rs = [] \<longrightarrow> winner_set k g d rs = {})"
proof -
  have a: "winner_set k g d rs = spec_winners k g d rs" by (rule winner_set_spec)
  have b: "winner_set k g d rs = winner_set k g d (filter dr_solved rs)"
    by (simp add: winner_set_def point_earner_rows_filter_solved)
  have c: "solved_on k g d rs = [] \<longrightarrow> winner_set k g d rs = {}"
    by (simp add: a spec_winners_def)
  from a b c show ?thesis by blast
qed

theorem C1_winner_set_witness:
  "solved_on LocalDate 7 102 ex_results = []
   \<and> winner_set LocalDate 7 102 ex_results = {}
   \<and> spec_winners LocalDate 7 100 ex_results = {1, 2}
   \<and> winner_set LocalDate 7 100 ex_results = {1, 2}"
proof -
  have h: "solved_on LocalDate 7 102 ex_results = []"
    by (simp add: solved_on_def ex_results_def ex_result_def)
  have s: "spec_winners LocalDate 7 100 ex_results = {1, 2}"
    by (simp add: spec_winners_def solved_on_def ex_results_def ex_result_def)
  from C1_winner_set[of LocalDate 7 102 ex_results] h
  have e: "winner_set LocalDate 7 102 ex_results = {}" by blast
  from C1_winner_set[of LocalDate 7 100 ex_results] s
  have w: "winner_set LocalDate 7 100 ex_results = {1, 2}" by simp
  from h e s w show ?thesis by blast
qed

section \<open>Score aggregation\<close>

lemma sql_eq_Some2: "sql_eq y (Some x) = (y = Some x)"
  by (cases y) auto

lemma left_join_grouped:
  assumes "distinct ks"
  shows "left_join (\<lambda>x. fst x = a \<and> fst (snd x) = b) (\<lambda>x. snd (snd x))
           (map (\<lambda>gu. (fst gu, snd gu, F gu)) ks)
         = (if (a, b) \<in> set ks then [Some (F (a, b))] else [None])"
proof -
  have "filter (\<lambda>x. fst x = a \<and> fst (snd x) = b) (map (\<lambda>gu. (fst gu, snd gu, F gu)) ks)
        = map (\<lambda>gu. (fst gu, snd gu, F gu)) (filter (\<lambda>gu. gu = (a, b) \<and> True) ks)"
    by (induction ks) auto
  also have "\<dots> = (if (a, b) \<in> set ks then [(a, b, F (a, b))] else [])"
    unfolding filter_eq_distinct[OF assms] by simp
  finally show ?thesis by (simp add: left_join_def)
qed

lemma sum_points: "sum_list (map (\<lambda>x. snd (snd x)) (filter P (map (\<lambda>dr. (f dr, h dr, 1::int)) xs)))
   = int (length (filter (\<lambda>dr. P (f dr, h dr, 1)) xs))"
  by (induction xs) auto

lemma earned_scores_alt:
  "earned_scores k rs =
     map (\<lambda>gu. (fst gu, snd gu,
            sum_list (map (\<lambda>x. snd (snd x))
              (filter (\<lambda>x. fst (snd x) = fst gu \<and> fst x = snd gu) (point_earners k rs)))))
         (remdups (map (\<lambda>x. (fst (snd x), fst x)) (point_earners k rs)))"
  by (simp add: earned_scores_def Let_def case_prod_unfold)

lemma earned_lookup:
  "left_join (\<lambda>(g', u', s). sql_eq g' (Some g) \<and> u' = u) (\<lambda>(g', u', s). s) (earned_scores k rs)
   = (if wins k g u rs = [] then [None] else [Some (int (length (wins k g u rs)))])"
proof -
  have p: "(\<lambda>(g', u', s). sql_eq g' (Some g) \<and> u' = u)
         = (\<lambda>x::uuid option \<times> uuid \<times> int. fst x = Some g \<and> fst (snd x) = u)"
    by (auto simp: fun_eq_iff sql_eq_Some2)
  have v: "(\<lambda>(g'::uuid option, u'::uuid, s::int). s) = (\<lambda>x. snd (snd x))"
    by (auto simp: fun_eq_iff)
  have len: "sum_list (map (\<lambda>x. snd (snd x))
              (filter (\<lambda>x. fst (snd x) = Some g \<and> fst x = u) (point_earners k rs)))
           = int (length (wins k g u rs))"
    unfolding point_earners_def sum_points wins_def
    by (simp add: conj_commute)
  have mem: "((Some g, u) \<in> (\<lambda>x. (fst (snd x), fst x)) ` set (point_earners k rs))
           = (wins k g u rs \<noteq> [])"
    by (force simp: point_earners_def wins_def filter_empty_conv image_iff)
  show ?thesis
    unfolding p v earned_scores_alt
    by (subst left_join_grouped) (simp_all add: len mem)
qed

lemma adjustment_totals_alt:
  "adjustment_totals adjs =
     map (\<lambda>gu. (fst gu, snd gu, adjustment_sum (fst gu) (snd gu) adjs))
         (remdups (map (\<lambda>a. (sa_group_id a, sa_user_id a)) adjs))"
  by (simp add: adjustment_totals_def adjustment_sum_def case_prod_unfold)

lemma adjustment_lookup:
  "left_join (\<lambda>(g', u', s). g' = g \<and> u' = u) (\<lambda>(g', u', s). s) (adjustment_totals adjs)
   = (if filter (\<lambda>a. sa_group_id a = g \<and> sa_user_id a = u) adjs = [] then [None]
      else [Some (adjustment_sum g u adjs)])"
proof -
  have p: "(\<lambda>(g', u', s). g' = g \<and> u' = u)
         = (\<lambda>x::uuid \<times> uuid \<times> int. fst x = g \<and> fst (snd x) = u)"
    by (auto simp: fun_eq_iff)
  have v: "(\<lambda>(g'::uuid, u'::uuid, s::int). s) = (\<lambda>x. snd (snd x))"
    by (auto simp: fun_eq_iff)
  have mem: "((g, u) \<in> (\<lambda>a. (sa_group_id a, sa_user_id a)) ` set adjs)
           = (filter (\<lambda>a. sa_group_id a = g \<and> sa_user_id a = u) adjs \<noteq> [])"
    by (force simp: filter_empty_conv image_iff)
  show ?thesis
    unfolding p v adjustment_totals_alt
    by (subst left_join_grouped) (simp_all add: mem)
qed

lemma adjustment_sum_Nil:
  "filter (\<lambda>a. sa_group_id a = g \<and> sa_user_id a = u) adjs = [] \<Longrightarrow> adjustment_sum g u adjs = 0"
  by (simp add: adjustment_sum_def)

lemma leaderboard_select_alt:
  "leaderboard_select members profs (earned_scores k rs) (adjustment_totals adjs)
   = concat (map (\<lambda>gu. map (entry_of k rs adjs (fst gu) (snd gu))
                         (filter (\<lambda>p. p_id p = snd gu) profs)) members)"
proof -
  have inner: "\<And>g u p. concat (map (\<lambda>earned_points.
           map (\<lambda>adjustment_points.
                 \<lparr>lb_group_id = g, lb_user_id = u, lb_username = p_username p,
                  lb_total_score = coalesce earned_points 0 + coalesce adjustment_points 0,
                  lb_games_won = coalesce earned_points 0\<rparr>)
               (left_join (\<lambda>(g', u', s). g' = g \<and> u' = u) (\<lambda>(g', u', s). s) (adjustment_totals adjs)))
           (left_join (\<lambda>(g', u', s). sql_eq g' (Some g) \<and> u' = u) (\<lambda>(g', u', s). s) (earned_scores k rs)))
        = [entry_of k rs adjs g u p]"
    unfolding earned_lookup adjustment_lookup
    by (simp add: entry_of_def adjustment_sum_Nil)
  show ?thesis
    unfolding leaderboard_select_def inner
    by (simp add: case_prod_unfold map_concat o_def cong: map_cong)
qed


lemma set_members: "set (all_members ms) = set (current_members ms)"
  by (simp add: all_members_def current_members_def)

lemma set_leaderboard_select_members:
  "set ms = set ms' \<Longrightarrow>
   set (leaderboard_select ms profs (earned_scores k rs) (adjustment_totals adjs))
   = set (leaderboard_select ms' profs (earned_scores k rs) (adjustment_totals adjs))"
  unfolding leaderboard_select_alt by simp

lemma set_order_by [simp]: "set (order_by_total_score_desc es) = set es"
  by (simp add: order_by_total_score_desc_def)

lemma set_leaderboard_view: "set (leaderboard_view k db) = set (leaderboard_query k db)"
  unfolding leaderboard_view_def leaderboard_query_def set_order_by
  by (rule set_leaderboard_select_members) (simp add: set_members)

lemma in_leaderboard_select:
  "e \<in> set (leaderboard_select members profs (earned_scores k rs) (adjustment_totals adjs))
   \<longleftrightarrow> (\<exists>g u p. (g, u) \<in> set members \<and> p \<in> set profs \<and> p_id p = u \<and> e = entry_of k rs adjs g u p)"
  unfolding leaderboard_select_alt by force

lemma in_leaderboard_query:
  "e \<in> set (leaderboard_query k db)
   \<longleftrightarrow> (\<exists>m p. m \<in> set (group_members db) \<and> p \<in> set (profiles db) \<and> p_id p = gm_user_id m
          \<and> e = entry_of k (daily_results db) (score_adjustments db) (gm_group_id m) (gm_user_id m) p)"
proof -
  have "(\<exists>g u p. (g, u) \<in> set (all_members (group_members db)) \<and> p \<in> set (profiles db) \<and> p_id p = u
           \<and> e = entry_of k (daily_results db) (score_adjustments db) g u p)
        \<longleftrightarrow> (\<exists>m p. m \<in> set (group_members db) \<and> p \<in> set (profiles db) \<and> p_id p = gm_user_id m
          \<and> e = entry_of k (daily_results db) (score_adjustments db) (gm_group_id m) (gm_user_id m) p)"
    unfolding all_members_def by (auto simp: image_iff)
  then show ?thesis unfolding leaderboard_query_def in_leaderboard_select .
qed

lemma set_leaderboard_scores:
  "up_to_date db \<Longrightarrow> set (leaderboard_scores db) = set (leaderboard_query (lb_key db) db)"
  by (auto simp: up_to_date_def leaderboard_scores_def set_leaderboard_view split: option.splits)

lemma set_getLeaderboard:
  "set (getLeaderboard g db) = {e \<in> set (leaderboard_scores db). lb_group_id e = g}"
  by (auto simp: getLeaderboard_def)

lemma lb_group_id_entry_of [simp]: "lb_group_id (entry_of k rs adjs g u p) = g"
  by (simp add: entry_of_def)

lemma getLeaderboard_iff:
  assumes "up_to_date db"
  shows "e \<in> set (getLeaderboard g db) \<longleftrightarrow>
         (\<exists>m p. m \<in> set (group_members db) \<and> gm_group_id m = g \<and> p \<in> set (profiles db)
                \<and> p_id p = gm_user_id m
                \<and> e = entry_of (lb_key db) (daily_results db) (score_adjustments db) g (gm_user_id m) p)"
proof -
  have "e \<in> set (getLeaderboard g db)
        \<longleftrightarrow> e \<in> set (leaderboard_query (lb_key db) db) \<and> lb_group_id e = g"
    unfolding set_getLeaderboard set_leaderboard_scores[OF assms] by simp
  also have "\<dots> \<longleftrightarrow> (\<exists>m p. m \<in> set (group_members db) \<and> gm_group_id m = g
                \<and> p \<in> set (profiles db) \<and> p_id p = gm_user_id m
                \<and> e = entry_of (lb_key db) (daily_results db) (score_adjustments db) g (gm_user_id m) p)"
    unfolding in_leaderboard_query by (metis lb_group_id_entry_of)
  finally show ?thesis .
qed


lemma wins_alt:
  "wins k g u rs = filter (\<lambda>r. dr_user_id r = u \<and> dr_group_id r = Some g \<and> is_point_earner k rs r \<and> dr_solved r) rs"
  unfolding wins_def point_earner_rows_filter filter_filter by (rule filter_cong) auto

lemma is_point_earner_key: "is_point_earner k rs r \<Longrightarrow> dr_group_id r \<noteq> None \<and> key_of k r \<noteq> None"
  by (auto simp: is_point_earner_def split: option.splits)

lemma in_winner_set:
  "u \<in> winner_set k g d rs \<longleftrightarrow> (\<exists>r \<in> set (wins k g u rs). key_of k r = Some d)"
  by (auto simp: winner_set_def wins_def)

lemma in_day_keys:
  "d \<in> set (day_keys k g rs) \<longleftrightarrow> (\<exists>r \<in> set rs. dr_group_id r = Some g \<and> key_of k r = Some d)"
  by (auto simp: day_keys_def map_filter_def image_iff)

lemma wins_subset: "r \<in> set (wins k g u rs) \<Longrightarrow> r \<in> set rs \<and> dr_group_id r = Some g \<and> dr_user_id r = u \<and> key_of k r \<noteq> None"
  by (auto simp: wins_alt dest: is_point_earner_key)

lemma set_days_won:
  "Some ` set (days_won k g u rs) = key_of k ` set (wins k g u rs)"
proof (rule set_eqI)
  fix x
  show "x \<in> Some ` set (days_won k g u rs) \<longleftrightarrow> x \<in> key_of k ` set (wins k g u rs)"
  proof
    assume "x \<in> Some ` set (days_won k g u rs)"
    then obtain d where x: "x = Some d" and d: "u \<in> winner_set k g d rs"
      by (auto simp: days_won_def)
    from d obtain r where "r \<in> set (wins k g u rs)" "key_of k r = Some d"
      unfolding in_winner_set by blast
    then show "x \<in> key_of k ` set (wins k g u rs)" using x by force
  next
    assume "x \<in> key_of k ` set (wins k g u rs)"
    then obtain r where r: "r \<in> set (wins k g u rs)" and x: "x = key_of k r" by blast
    from wins_subset[OF r] obtain d where d: "key_of k r = Some d" by auto
    have "u \<in> winner_set k g d rs" unfolding in_winner_set using r d by blast
    moreover have "d \<in> set (day_keys k g rs)"
      unfolding in_day_keys using wins_subset[OF r] d by blast
    ultimately show "x \<in> Some ` set (days_won k g u rs)"
      using x d by (simp add: days_won_def)
  qed
qed

lemma distinct_wins_keys:
  assumes "one_result_per_day k rs"
  shows "distinct (map (key_of k) (wins k g u rs))"
proof -
  let ?f = "\<lambda>r. (dr_user_id r, dr_group_id r, key_of k r)"
  let ?P = "\<lambda>r. dr_user_id r = u \<and> dr_group_id r = Some g \<and> is_point_earner k rs r \<and> dr_solved r"
  have "wins k g u rs = filter ?P (filter (\<lambda>r. dr_group_id r \<noteq> None \<and> key_of k r \<noteq> None) rs)"
    unfolding wins_alt filter_filter by (rule filter_cong) (auto dest: is_point_earner_key)
  moreover have "distinct (map ?f (filter ?P (filter (\<lambda>r. dr_group_id r \<noteq> None \<and> key_of k r \<noteq> None) rs)))"
    using assms unfolding one_result_per_day_def by (rule distinct_map_filter)
  ultimately have d: "distinct (map ?f (wins k g u rs))" by simp
  have e: "map ?f (wins k g u rs) = map (\<lambda>x. (u, Some g, x)) (map (key_of k) (wins k g u rs))"
    unfolding map_map by (rule map_cong) (auto dest: wins_subset)
  from d have "distinct (map (\<lambda>x. (u, Some g, x)) (map (key_of k) (wins k g u rs)))"
    unfolding e .
  then show ?thesis
    unfolding distinct_map[of "\<lambda>x. (u, Some g, x)"] by blast
qed

lemma length_wins_days_won:
  assumes "one_result_per_day k rs"
  shows "length (wins k g u rs) = length (days_won k g u rs)"
proof -
  have "length (wins k g u rs) = length (map (key_of k) (wins k g u rs))" by simp
  also have "\<dots> = card (set (map (key_of k) (wins k g u rs)))"
    using distinct_wins_keys[OF assms] by (simp only: distinct_card)
  also have "\<dots> = card (Some ` set (days_won k g u rs))"
    by (simp add: set_days_won)
  also have "\<dots> = card (set (days_won k g u rs))"
    by (simp add: card_image)
  also have "\<dots> = length (days_won k g u rs)"
  proof -
    have "distinct (days_won k g u rs)" by (simp add: days_won_def day_keys_def)
    then show ?thesis by (rule distinct_card)
  qed
  finally show ?thesis .
qed


lemma wins_no_results: "no_results u g db \<Longrightarrow> wins k g u (daily_results db) = []"
  by (auto simp: no_results_def wins_alt filter_empty_conv)

lemma adjustment_sum_no_adjustments: "no_adjustments u g db \<Longrightarrow> adjustment_sum g u (score_adjustments db) = 0"
  by (simp add: no_adjustments_def adjustment_sum_def)

lemma member_has_entry:
  assumes "up_to_date db" "member_profiles_exist db" "is_member u g db"
  shows "\<exists>p. entry_of (lb_key db) (daily_results db) (score_adjustments db) g u p \<in> set (getLeaderboard g db)"
proof -
  from assms(3) obtain m where m: "m \<in> set (group_members db)" "gm_group_id m = g" "gm_user_id m = u"
    by (auto simp: is_member_def list_ex_iff)
  with assms(2) obtain p where p: "p \<in> set (profiles db)" "p_id p = u"
    by (auto simp: member_profiles_exist_def list_all_iff list_ex_iff)
  have "entry_of (lb_key db) (daily_results db) (score_adjustments db) g u p \<in> set (getLeaderboard g db)"
    unfolding getLeaderboard_iff[OF assms(1)] using m p by blast
  then show ?thesis ..
qed

text \<open>
  Claim C2, as amended.  When \<open>leaderboard_scores\<close> reflects the tables (the plain
  view always does, the materialized view does as of its last refresh), every entry that
  \<open>getLeaderboard g\<close> returns has \<open>total_score = games_won +\<close> the sum of that member's
  adjustments in \<open>g\<close>, where \<open>games_won\<close> is the number of the member's winning Results
  (computed from the Results alone), which is the number of day keys the member won when
  there is one Result per user, group and day key; and every current member (whose
  profile exists, as the foreign key demands) is listed, with \<open>games_won = 0\<close> and
  \<open>total_score = 0\<close> when the member has no Result and no Adjustment.
\<close>

theorem C2_total_score:
  assumes "up_to_date db"
  shows "(\<forall>e \<in> set (getLeaderboard g db).
            lb_total_score e = lb_games_won e + adjustment_sum g (lb_user_id e) (score_adjustments db)
          \<and> lb_games_won e = int (length (wins (lb_key db) g (lb_user_id e) (daily_results db)))
          \<and> (one_result_per_day (lb_key db) (daily_results db) \<longrightarrow>
               lb_games_won e = int (length (days_won (lb_key db) g (lb_user_id e) (daily_results db)))))
       \<and> (member_profiles_exist db \<and> is_member u g db \<longrightarrow>
            (\<exists>e \<in> set (getLeaderboard g db). lb_user_id e = u
               \<and> (no_results u g db \<and> no_adjustments u g db \<longrightarrow>
                     lb_games_won e = 0 \<and> lb_total_score e = 0)))"
proof (intro conjI ballI impI)
  fix e assume "e \<in> set (getLeaderboard g db)"
  then obtain u' :: uuid and p :: profile
    where e: "e = entry_of (lb_key db) (daily_results db) (score_adjustments db) g u' p"
    unfolding getLeaderboard_iff[OF assms] by blast
  show "lb_total_score e = lb_games_won e + adjustment_sum g (lb_user_id e) (score_adjustments db)"
    by (simp add: e entry_of_def)
  show w: "lb_games_won e = int (length (wins (lb_key db) g (lb_user_id e) (daily_results db)))"
    by (simp add: e entry_of_def)
  show "lb_games_won e = int (length (days_won (lb_key db) g (lb_user_id e) (daily_results db)))"
    if "one_result_per_day (lb_key db) (daily_results db)"
    using length_wins_days_won[OF that] w by simp
next
  assume "member_profiles_exist db \<and> is_member u g db"
  then obtain p where p: "entry_of (lb_key db) (daily_results db) (score_adjustments db) g u p
                           \<in> set (getLeaderboard g db)"
    using member_has_entry[OF assms] by blast
  show "\<exists>e \<in> set (getLeaderboard g db). lb_user_id e = u
               \<and> (no_results u g db \<and> no_adjustments u g db \<longrightarrow>
                     lb_games_won e = 0 \<and> lb_total_score e = 0)"
    by (rule bexI[OF _ p]) (simp add: entry_of_def wins_no_results adjustment_sum_no_adjustments)
qed

lemma ex_leaderboard: "getLeaderboard 7 ex_db =
  [\<lparr>lb_group_id = 7, lb_user_id = 1, lb_username = ''A'', lb_total_score = 2, lb_games_won = 2\<rparr>,
   \<lparr>lb_group_id = 7, lb_user_id = 3, lb_username = ''C'', lb_total_score = 2, lb_games_won = 0\<rparr>,
   \<lparr>lb_group_id = 7, lb_user_id = 2, lb_username = ''B'', lb_total_score = 1, lb_games_won = 1\<rparr>,
   \<lparr>lb_group_id = 7, lb_user_id = 4, lb_username = ''D'', lb_total_score = 0, lb_games_won = 0\<rparr>]"
  by code_simp

theorem C2_total_score_witness:
  "up_to_date ex_db \<and> member_profiles_exist ex_db \<and> is_member 4 7 ex_db
   \<and> no_results 4 7 ex_db \<and> no_adjustments 4 7 ex_db
   \<and> one_result_per_day (lb_key ex_db) (daily_results ex_db)
   \<and> (\<exists>e \<in> set (getLeaderboard 7 ex_db).
         lb_user_id e = 4 \<and> lb_games_won e = 0 \<and> lb_total_score e = 0)
   \<and> int (length (days_won (lb_key ex_db) 7 1 (daily_results ex_db))) = 2
   \<and> adjustment_sum 7 3 (score_adjustments ex_db) = 2"
proof -
  have u: "up_to_date ex_db" by code_simp
  have f: "member_profiles_exist ex_db" by code_simp
  have m: "is_member 4 7 ex_db" by code_simp
  have nr: "no_results 4 7 ex_db" by code_simp
  have na: "no_adjustments 4 7 ex_db" by code_simp
  have o: "one_result_per_day (lb_key ex_db) (daily_results ex_db)" by code_simp
  have a: "\<lparr>lb_group_id = 7, lb_user_id = 1, lb_username = ''A'', lb_total_score = 2,
            lb_games_won = 2\<rparr> \<in> set (getLeaderboard 7 ex_db)"
    by (simp add: ex_leaderboard)
  have c: "\<lparr>lb_group_id = 7, lb_user_id = 3, lb_username = ''C'', lb_total_score = 2,
            lb_games_won = 0\<rparr> \<in> set (getLeaderboard 7 ex_db)"
    by (simp add: ex_leaderboard)
  note t = C2_total_score[OF u, of 7 4]
  from t f m nr na
  have d: "\<exists>e \<in> set (getLeaderboard 7 ex_db).
             lb_user_id e = 4 \<and> lb_games_won e = 0 \<and> lb_total_score e = 0"
    by blast
  from t a o have w: "int (length (days_won (lb_key ex_db) 7 1 (daily_results ex_db))) = 2"
    by fastforce
  from t c have s: "adjustment_sum 7 3 (score_adjustments ex_db) = 2"
    by fastforce
  from u f m nr na o d w s show ?thesis by blast
qed

text \<open>
  Claim C2 as stated fails twice.  On the materialized view B, who has just joined group 7
  and has no Result and no Adjustment, is not listed: joining runs no refresh.  And after
  the leave-and-rejoin scenario B has \<open>games_won = 2\<close> with a single day key won, local
  date 100.
\<close>

theorem C2_counterexample:
  "fst (joinGroup 2 (98 * ms_per_day) ''abc123'' ex5_mv)
   \<and> is_member 2 7 ex5_mv_joined \<and> member_profiles_exist ex5_mv_joined
   \<and> no_results 2 7 ex5_mv_joined \<and> no_adjustments 2 7 ex5_mv_joined
   \<and> map lb_user_id (getLeaderboard 7 ex5_mv_joined) = [1]
   \<and> up_to_date ex5_db4
   \<and> map (\<lambda>e. (lb_user_id e, lb_games_won e, lb_total_score e)) (getLeaderboard 7 ex5_db4)
       = [(2, 2, 2), (1, 0, 0)]
   \<and> days_won LocalDate 7 2 (daily_results ex5_db4) = [100]"
  by code_simp

section \<open>Refresh on write\<close>

lemma leaderboard_query_snapshot [simp]:
  "leaderboard_query k (db\<lparr>lb_snapshot := s\<rparr>) = leaderboard_query k db"
  "leaderboard_query k (db\<lparr>lb_refreshes := n\<rparr>) = leaderboard_query k db"
  by (simp_all add: leaderboard_query_def)

lemma up_to_date_refresh: "up_to_date (refresh_leaderboard db)"
  by (simp add: up_to_date_def refresh_leaderboard_def)

lemma up_to_date_trigger: "up_to_date (trigger_refresh_leaderboard db)"
proof (cases "lb_snapshot db")
  case None
  then show ?thesis by (simp add: trigger_refresh_leaderboard_def up_to_date_def)
next
  case (Some rows)
  then show ?thesis by (simp add: trigger_refresh_leaderboard_def up_to_date_refresh)
qed

lemma trigger_fields [simp]:
  "profiles (trigger_refresh_leaderboard db) = profiles db"
  "groups (trigger_refresh_leaderboard db) = groups db"
  "group_members (trigger_refresh_leaderboard db) = group_members db"
  "daily_results (trigger_refresh_leaderboard db) = daily_results db"
  "score_adjustments (trigger_refresh_leaderboard db) = score_adjustments db"
  "lb_key (trigger_refresh_leaderboard db) = lb_key db"
  by (simp_all add: trigger_refresh_leaderboard_def refresh_leaderboard_def split: option.splits)

lemma trigger_materialized:
  "lb_snapshot db \<noteq> None \<Longrightarrow>
   lb_snapshot (trigger_refresh_leaderboard db) = Some (leaderboard_query (lb_key db) db)
   \<and> lb_refreshes (trigger_refresh_leaderboard db) = Suc (lb_refreshes db)"
  by (auto simp: trigger_refresh_leaderboard_def refresh_leaderboard_def)

lemma trigger_view: "lb_snapshot db = None \<Longrightarrow> trigger_refresh_leaderboard db = db"
  by (simp add: trigger_refresh_leaderboard_def)

lemma execute_cases:
  assumes "execute st db = Inr db'"
  obtains tb where "db' = trigger_refresh_leaderboard tb" "lb_snapshot tb = lb_snapshot db"
    "lb_refreshes tb = lb_refreshes db" "lb_key tb = lb_key db"
proof (cases st)
  case (InsertResult uid r)
  with assms have "db' = trigger_refresh_leaderboard (db\<lparr>daily_results := daily_results db @ [r]\<rparr>)"
    by (auto simp: insert_daily_result_def split: if_splits)
  then show ?thesis by (rule that) simp_all
next
  case (DeleteResults uid g)
  with assms show ?thesis by (intro that[of "db\<lparr>daily_results :=
            filter (\<lambda>r. \<not> (dr_group_id r = Some g \<and> daily_result_deletable uid db r))
                   (daily_results db)\<rparr>"]) (auto simp: delete_daily_results_def)
next
  case (InsertAdjustment uid a)
  with assms have "db' = trigger_refresh_leaderboard (db\<lparr>score_adjustments := score_adjustments db @ [a]\<rparr>)"
    by (auto simp: insert_score_adjustment_def split: if_splits)
  then show ?thesis by (rule that) simp_all
next
  case (DeleteAdjustments uid g)
  with assms show ?thesis by (intro that[of "db\<lparr>score_adjustments :=
            filter (\<lambda>a. \<not> (sa_group_id a = g \<and> score_adjustment_deletable uid db a))
                   (score_adjustments db)\<rparr>"]) (auto simp: delete_score_adjustments_def)
qed

lemma execute_up_to_date: "execute st db = Inr db' \<Longrightarrow> up_to_date db'"
  by (erule execute_cases) (simp add: up_to_date_trigger)


text \<open>No trigger is defined on \<open>group_members\<close>: joining and leaving keep the snapshot.\<close>

lemma membership_change_keeps_snapshot:
  "lb_snapshot (snd (joinGroup u t code db)) = lb_snapshot db"
  "lb_snapshot (snd (leaveGroup u g db)) = lb_snapshot db"
  by (auto simp: joinGroup_def leaveGroup_def insert_group_member_def delete_group_member_def
        split: option.splits sum.splits)



section \<open>Group reset\<close>

lemma delete_daily_results_materialized:
  "lb_snapshot db \<noteq> None \<Longrightarrow>
   lb_snapshot (delete_daily_results uid g db) \<noteq> None
   \<and> lb_refreshes (delete_daily_results uid g db) = Suc (lb_refreshes db)"
  unfolding delete_daily_results_def
  using trigger_materialized[of "db\<lparr>daily_results :=
            filter (\<lambda>r. \<not> (dr_group_id r = Some g \<and> daily_result_deletable uid db r))
                   (daily_results db)\<rparr>"]
  by simp

lemma delete_score_adjustments_materialized:
  "lb_snapshot db \<noteq> None \<Longrightarrow>
   lb_snapshot (delete_score_adjustments uid g db) \<noteq> None
   \<and> lb_refreshes (delete_score_adjustments uid g db) = Suc (lb_refreshes db)"
  unfolding delete_score_adjustments_def
  using trigger_materialized[of "db\<lparr>score_adjustments :=
            filter (\<lambda>a. \<not> (sa_group_id a = g \<and> score_adjustment_deletable uid db a))
                   (score_adjustments db)\<rparr>"]
  by simp

lemma reset_refreshes:
  assumes "lb_snapshot db \<noteq> None"
  shows "lb_refreshes (handleResetScores uid g db) = lb_refreshes db + 2"
  unfolding handleResetScores_def
  using delete_daily_results_materialized[OF assms, of uid g]
        delete_score_adjustments_materialized[of "delete_daily_results uid g db" uid g]
  by simp

lemma reset_up_to_date: "up_to_date (handleResetScores uid g db)"
  by (simp add: handleResetScores_def delete_score_adjustments_def up_to_date_trigger)

lemma reset_results:
  "is_group_admin uid g db \<Longrightarrow>
   filter (\<lambda>r. dr_group_id r = Some g) (daily_results (handleResetScores uid g db)) = []"
  by (auto simp: handleResetScores_def delete_score_adjustments_def delete_daily_results_def
        daily_result_deletable_def filter_empty_conv)

lemma reset_adjustments:
  "score_adjustments (handleResetScores uid g db) = score_adjustments db"
  by (simp add: handleResetScores_def delete_score_adjustments_def delete_daily_results_def
        score_adjustment_deletable_def)

lemma wins_no_group_results:
  "filter (\<lambda>r. dr_group_id r = Some g) rs = [] \<Longrightarrow> wins k g u rs = []"
  by (auto simp: wins_alt filter_empty_conv)


text \<open>
  Claim C7, as amended.  In the materialized deployment a group reset runs the refresh
  twice, once after each of its two DELETE statements; when it completes the snapshot is
  the query evaluated on the tables as they then are, and, the caller being an admin of
  the group, every entry of the group has \<open>games_won = 0\<close>.
\<close>

theorem C7_reset_refreshes:
  "lb_snapshot db \<noteq> None \<longrightarrow>
     lb_refreshes (handleResetScores uid g db) = lb_refreshes db + 2
     \<and> up_to_date (handleResetScores uid g db)
     \<and> (is_group_admin uid g db \<longrightarrow>
          (\<forall>e \<in> set (getLeaderboard g (handleResetScores uid g db)). lb_games_won e = 0))"
proof (intro impI conjI ballI)
  assume "lb_snapshot db \<noteq> None"
  then show "lb_refreshes (handleResetScores uid g db) = lb_refreshes db + 2"
    by (rule reset_refreshes)
next
  show "up_to_date (handleResetScores uid g db)" by (rule reset_up_to_date)
next
  fix e
  assume adm: "is_group_admin uid g db" and e: "e \<in> set (getLeaderboard g (handleResetScores uid g db))"
  let ?db' = "handleResetScores uid g db"
  from e obtain u :: uuid and p :: profile
    where "e = entry_of (lb_key ?db') (daily_results ?db') (score_adjustments ?db') g u p"
    unfolding getLeaderboard_iff[OF reset_up_to_date] by blast
  then show "lb_games_won e = 0"
    by (simp add: entry_of_def wins_no_group_results[OF reset_results[OF adm]])
qed

theorem C7_reset_refreshes_witness:
  "lb_snapshot ex_mv \<noteq> None \<and> is_group_admin 1 7 ex_mv
   \<and> lb_refreshes (handleResetScores 1 7 ex_mv) = lb_refreshes ex_mv + 2
   \<and> lb_games_won \<lparr>lb_group_id = 7, lb_user_id = 1, lb_username = ''A'', lb_total_score = 0,
                    lb_games_won = 0\<rparr> = 0"
proof -
  have m: "lb_snapshot ex_mv \<noteq> None" by code_simp
  have a: "is_group_admin 1 7 ex_mv" by code_simp
  have e: "\<lparr>lb_group_id = 7, lb_user_id = 1, lb_username = ''A'', lb_total_score = 0,
            lb_games_won = 0\<rparr> \<in> set (getLeaderboard 7 (handleResetScores 1 7 ex_mv))"
    by code_simp
  from C7_reset_refreshes[of ex_mv 1 7] m a e show ?thesis by auto
qed

text \<open>
  Claim C7 as stated fails: on the example database the reset by the admin A runs the
  refresh twice, not exactly once.
\<close>

theorem C7_single_refresh_counterexample:
  "lb_snapshot ex_mv \<noteq> None
   \<and> lb_refreshes (handleResetScores 1 7 ex_mv) \<noteq> Suc (lb_refreshes ex_mv)"
  by code_simp

text \<open>
  Claim C6 at its failing input.  On the example database the reset by the admin A deletes
  the Results of group 7 but none of its Adjustments (no policy admits a DELETE on
  \<open>score_adjustments\<close>), and the leaderboard still shows C with \<open>total_score = 2\<close>.
\<close>

theorem C6_reset_keeps_adjustments:
  "is_group_admin 1 7 ex_db
   \<and> adjustment_sum 7 3 (score_adjustments ex_db) = 2
   \<and> daily_results (handleResetScores 1 7 ex_db) = []
   \<and> score_adjustments (handleResetScores 1 7 ex_db) = score_adjustments ex_db
   \<and> getLeaderboard 7 (handleResetScores 1 7 ex_db) =
       [\<lparr>lb_group_id = 7, lb_user_id = 3, lb_username = ''C'', lb_total_score = 2, lb_games_won = 0\<rparr>,
        \<lparr>lb_group_id = 7, lb_user_id = 1, lb_username = ''A'', lb_total_score = 0, lb_games_won = 0\<rparr>,
        \<lparr>lb_group_id = 7, lb_user_id = 2, lb_username = ''B'', lb_total_score = 0, lb_games_won = 0\<rparr>,
        \<lparr>lb_group_id = 7, lb_user_id = 4, lb_username = ''D'', lb_total_score = 0, lb_games_won = 0\<rparr>]"
  by code_simp

section \<open>Membership as the join key\<close>

lemma is_member_iff: "is_member u g db \<longleftrightarrow> (\<exists>m \<in> set (group_members db). gm_group_id m = g \<and> gm_user_id m = u)"
  by (simp add: is_member_def list_ex_iff)

lemma listed_is_member:
  assumes "up_to_date db" "e \<in> set (getLeaderboard g db)"
  shows "lb_group_id e = g \<and> is_member (lb_user_id e) g db"
proof -
  from assms(2) obtain m p where "m \<in> set (group_members db)" "gm_group_id m = g"
     "e = entry_of (lb_key db) (daily_results db) (score_adjustments db) g (gm_user_id m) p"
    unfolding getLeaderboard_iff[OF assms(1)] by blast
  then show ?thesis unfolding is_member_iff by (auto simp: entry_of_def)
qed

lemma leaveGroup_fields [simp]:
  "profiles (snd (leaveGroup u g db)) = profiles db"
  "groups (snd (leaveGroup u g db)) = groups db"
  "daily_results (snd (leaveGroup u g db)) = daily_results db"
  "score_adjustments (snd (leaveGroup u g db)) = score_adjustments db"
  "lb_key (snd (leaveGroup u g db)) = lb_key db"
  "lb_snapshot (snd (leaveGroup u g db)) = lb_snapshot db"
  "group_members (snd (leaveGroup u g db))
     = filter (\<lambda>m. \<not> (gm_user_id m = u \<and> gm_group_id m = g)) (group_members db)"
  by (auto simp: leaveGroup_def delete_group_member_def intro: filter_cong)

lemma not_member_after_leave: "\<not> is_member u g (snd (leaveGroup u g db))"
  by (auto simp: is_member_iff)

lemma up_to_date_view: "lb_snapshot db = None \<Longrightarrow> up_to_date db"
  by (simp add: up_to_date_def)

lemma single_None_iff: "single xs = None \<longleftrightarrow> (\<forall>x. xs \<noteq> [x])"
  by (cases xs rule: single.cases) auto

lemma joinGroup_success:
  assumes grp: "single (filter (\<lambda>gr. g_invite_code gr = code) (groups db)) = Some gr"
    and prof: "list_ex (\<lambda>p. p_id p = u) (profiles db)"
    and nm: "\<not> is_member u (g_id gr) db"
  shows "joinGroup u t code db =
           (True, db\<lparr>group_members := group_members db @
               [\<lparr>gm_user_id = u, gm_group_id = g_id gr, gm_joined_at = t, gm_is_admin = False\<rparr>]\<rparr>)"
proof -
  have ex: "filter (\<lambda>m. gm_user_id m = u \<and> gm_group_id m = g_id gr) (group_members db) = []"
    using nm by (auto simp: is_member_iff filter_empty_conv)
  from grp have "filter (\<lambda>gr. g_invite_code gr = code) (groups db) = [gr]"
    by (cases "filter (\<lambda>gr. g_invite_code gr = code) (groups db)" rule: single.cases) auto
  then have "gr \<in> set (filter (\<lambda>gr. g_invite_code gr = code) (groups db))" by simp
  then have g: "list_ex (\<lambda>x. g_id x = g_id gr) (groups db)"
    by (auto simp: list_ex_iff)
  show ?thesis
    using prof g nm by (simp add: joinGroup_def grp ex insert_group_member_def)
qed

lemma is_member_refresh [simp]: "is_member u g (refresh_leaderboard db) = is_member u g db"
  by (simp add: is_member_def refresh_leaderboard_def)

lemma listed_after_refresh:
  assumes "e \<in> set (getLeaderboard g (refresh_leaderboard db))"
  shows "lb_group_id e = g \<and> is_member (lb_user_id e) g db"
  using listed_is_member[OF up_to_date_refresh assms] by simp

lemma listed_after_execute:
  assumes "execute st db = Inr db'" "e \<in> set (getLeaderboard g db')"
  shows "lb_group_id e = g \<and> is_member (lb_user_id e) g db'"
  using listed_is_member[OF execute_up_to_date[OF assms(1)] assms(2)] .

text \<open>
  Claim C3, as amended.  Every entry of \<open>getLeaderboard g\<close> is an entry of group \<open>g\<close>
  for a user who was a member of \<open>g\<close> when \<open>leaderboard_scores\<close> was last computed, whatever
  Results and Adjustments are stored: a current member whenever the relation reflects the
  tables, which is so at every read of the plain view, right after a refresh of the
  materialized view, and right after every executed statement on the Result store or the
  Adjustment store.  With the plain view, a user who has left is not listed although the
  Results and Adjustments persist, and a user who leaves and joins again (by the group's
  invite code, the profile still existing) is listed again, with the wins of the stored
  Results and the stored Adjustments in the score.
\<close>

theorem C3_current_members_only:
  "(up_to_date db \<longrightarrow>
      (\<forall>e \<in> set (getLeaderboard g db). lb_group_id e = g \<and> is_member (lb_user_id e) g db))
   \<and> (\<forall>e \<in> set (getLeaderboard g (refresh_leaderboard db)).
        lb_group_id e = g \<and> is_member (lb_user_id e) g db)
   \<and> (execute st db = Inr db' \<longrightarrow>
      (\<forall>e \<in> set (getLeaderboard g db'). lb_group_id e = g \<and> is_member (lb_user_id e) g db'))
   \<and> (lb_snapshot db = None \<longrightarrow>
      (\<forall>e \<in> set (getLeaderboard g (snd (leaveGroup u g db))). lb_user_id e \<noteq> u))
   \<and> (lb_snapshot db = None \<and> list_ex (\<lambda>p. p_id p = u) (profiles db)
        \<and> single (filter (\<lambda>gr. g_invite_code gr = code) (groups db)) = Some gr \<and> g_id gr = g \<longrightarrow>
      fst (joinGroup u t code (snd (leaveGroup u g db)))
      \<and> (\<exists>e \<in> set (getLeaderboard g (snd (joinGroup u t code (snd (leaveGroup u g db))))).
            lb_user_id e = u
            \<and> lb_games_won e = int (length (wins (lb_key db) g u (daily_results db)))
            \<and> lb_total_score e = lb_games_won e + adjustment_sum g u (score_adjustments db)))"
proof (intro conjI impI ballI)
  fix e assume "up_to_date db" "e \<in> set (getLeaderboard g db)"
  then show "lb_group_id e = g" "is_member (lb_user_id e) g db"
    using listed_is_member by blast+
next
  fix e assume "e \<in> set (getLeaderboard g (refresh_leaderboard db))"
  then show "lb_group_id e = g" "is_member (lb_user_id e) g db"
    using listed_after_refresh by blast+
next
  fix e assume "execute st db = Inr db'" "e \<in> set (getLeaderboard g db')"
  then show "lb_group_id e = g" "is_member (lb_user_id e) g db'"
    using listed_after_execute by blast+
next
  fix e
  assume v: "lb_snapshot db = None" and e: "e \<in> set (getLeaderboard g (snd (leaveGroup u g db)))"
  have "up_to_date (snd (leaveGroup u g db))" using v by (simp add: up_to_date_view)
  from listed_is_member[OF this e] not_member_after_leave[of u g db]
  show "lb_user_id e \<noteq> u" by auto
next
  assume a: "lb_snapshot db = None \<and> list_ex (\<lambda>p. p_id p = u) (profiles db)
        \<and> single (filter (\<lambda>gr. g_invite_code gr = code) (groups db)) = Some gr \<and> g_id gr = g"
  let ?db1 = "snd (leaveGroup u g db)"
  let ?m = "\<lparr>gm_user_id = u, gm_group_id = g, gm_joined_at = t, gm_is_admin = False\<rparr>"
  let ?db2 = "?db1\<lparr>group_members := group_members ?db1 @ [?m]\<rparr>"
  have j: "joinGroup u t code ?db1 = (True, ?db2)"
    using joinGroup_success[of code ?db1 gr u t] a not_member_after_leave[of u g db] by simp
  show "fst (joinGroup u t code ?db1)" by (simp add: j)
  have u2: "up_to_date ?db2" using a by (simp add: up_to_date_view)
  from a obtain p where p: "p \<in> set (profiles db)" "p_id p = u" by (auto simp: list_ex_iff)
  have "entry_of (lb_key db) (daily_results db) (score_adjustments db) g u p
          \<in> set (getLeaderboard g ?db2)"
    unfolding getLeaderboard_iff[OF u2]
    by (rule exI[of _ ?m], rule exI[of _ p]) (simp add: p)
  then have "entry_of (lb_key db) (daily_results db) (score_adjustments db) g u p
          \<in> set (getLeaderboard g (snd (joinGroup u t code ?db1)))"
    unfolding j by simp
  moreover have "lb_user_id (entry_of (lb_key db) (daily_results db) (score_adjustments db) g u p) = u
            \<and> lb_games_won (entry_of (lb_key db) (daily_results db) (score_adjustments db) g u p)
                = int (length (wins (lb_key db) g u (daily_results db)))
            \<and> lb_total_score (entry_of (lb_key db) (daily_results db) (score_adjustments db) g u p)
                = lb_games_won (entry_of (lb_key db) (daily_results db) (score_adjustments db) g u p)
                  + adjustment_sum g u (score_adjustments db)"
    by (simp add: entry_of_def)
  ultimately show "\<exists>e \<in> set (getLeaderboard g (snd (joinGroup u t code ?db1))).
            lb_user_id e = u
            \<and> lb_games_won e = int (length (wins (lb_key db) g u (daily_results db)))
            \<and> lb_total_score e = lb_games_won e + adjustment_sum g u (score_adjustments db)"
    by (rule bexI[rotated])
qed

theorem C3_current_members_only_witness:
  "up_to_date ex_db \<and> lb_snapshot ex_db = None \<and> list_ex (\<lambda>p. p_id p = 2) (profiles ex_db)
   \<and> single (filter (\<lambda>gr. g_invite_code gr = ''abc123'') (groups ex_db)) = Some ex_group
   \<and> g_id ex_group = 7
   \<and> is_member 1 7 ex_db
   \<and> map lb_user_id (getLeaderboard 7 (refresh_leaderboard ex_mv_left)) = [1, 3, 4]
   \<and> is_member 3 7 ex_mv_left
   \<and> execute (DeleteResults 1 7) ex_mv_left = Inr (delete_daily_results 1 7 ex_mv_left)
   \<and> is_member 4 7 (delete_daily_results 1 7 ex_mv_left)
   \<and> lb_user_id \<lparr>lb_group_id = 7, lb_user_id = 1, lb_username = ''A'', lb_total_score = 2,
                  lb_games_won = 2\<rparr> \<noteq> 2
   \<and> fst (joinGroup 2 (103 * ms_per_day) ''abc123'' (snd (leaveGroup 2 7 ex_db)))
   \<and> (\<exists>e \<in> set (getLeaderboard 7
                (snd (joinGroup 2 (103 * ms_per_day) ''abc123'' (snd (leaveGroup 2 7 ex_db))))).
         lb_user_id e = 2 \<and> lb_games_won e = 1 \<and> lb_total_score e = 1)"
proof -
  let ?a = "\<lparr>lb_group_id = 7, lb_user_id = 1, lb_username = ''A'', lb_total_score = 2,
             lb_games_won = 2\<rparr>"
  have u: "up_to_date ex_db" by code_simp
  have v: "lb_snapshot ex_db = None" by code_simp
  have p: "list_ex (\<lambda>p. p_id p = 2) (profiles ex_db)" by code_simp
  have s: "single (filter (\<lambda>gr. g_invite_code gr = ''abc123'') (groups ex_db)) = Some ex_group"
    by code_simp
  have i: "g_id ex_group = 7" by code_simp
  have a: "?a \<in> set (getLeaderboard 7 ex_db)" by (simp add: ex_leaderboard)
  have b: "?a \<in> set (getLeaderboard 7 (snd (leaveGroup 2 7 ex_db)))" by code_simp
  have w: "int (length (wins (lb_key ex_db) 7 2 (daily_results ex_db))) = 1" by code_simp
  have j: "adjustment_sum 7 2 (score_adjustments ex_db) = 0" by code_simp
  have r: "map lb_user_id (getLeaderboard 7 (refresh_leaderboard ex_mv_left)) = [1, 3, 4]"
    by code_simp
  have rc: "\<lparr>lb_group_id = 7, lb_user_id = 3, lb_username = ''C'', lb_total_score = 2,
             lb_games_won = 0\<rparr> \<in> set (getLeaderboard 7 (refresh_leaderboard ex_mv_left))"
    by code_simp
  have x: "execute (DeleteResults 1 7) ex_mv_left = Inr (delete_daily_results 1 7 ex_mv_left)"
    by simp
  have xd: "\<lparr>lb_group_id = 7, lb_user_id = 4, lb_username = ''D'', lb_total_score = 0,
             lb_games_won = 0\<rparr> \<in> set (getLeaderboard 7 (delete_daily_results 1 7 ex_mv_left))"
    by code_simp
  note t = C3_current_members_only[where db = ex_db and g = 7 and u = 2 and code = "''abc123''"
             and gr = ex_group and t = "103 * ms_per_day"]
  note t' = C3_current_members_only[where db = ex_mv_left and g = 7
              and st = "DeleteResults 1 7" and db' = "delete_daily_results 1 7 ex_mv_left"]
  from t' rc have 5: "is_member 3 7 ex_mv_left" by fastforce
  from t' x xd have 6: "is_member 4 7 (delete_daily_results 1 7 ex_mv_left)" by fastforce
  from t u a have 1: "is_member 1 7 ex_db" by fastforce
  from t v b have 2: "lb_user_id ?a \<noteq> 2" by blast
  from t v p s i
  have 3: "fst (joinGroup 2 (103 * ms_per_day) ''abc123'' (snd (leaveGroup 2 7 ex_db)))"
    and "\<exists>e \<in> set (getLeaderboard 7
                (snd (joinGroup 2 (103 * ms_per_day) ''abc123'' (snd (leaveGroup 2 7 ex_db))))).
            lb_user_id e = 2
            \<and> lb_games_won e = int (length (wins (lb_key ex_db) 7 2 (daily_results ex_db)))
            \<and> lb_total_score e = lb_games_won e + adjustment_sum 7 2 (score_adjustments ex_db)"
    by blast+
  then have 4: "\<exists>e \<in> set (getLeaderboard 7
                (snd (joinGroup 2 (103 * ms_per_day) ''abc123'' (snd (leaveGroup 2 7 ex_db))))).
         lb_user_id e = 2 \<and> lb_games_won e = 1 \<and> lb_total_score e = 1"
    unfolding w j by auto
  from u v p s i 1 2 3 4 5 6 r x show ?thesis by blast
qed

text \<open>
  Claim C3 as stated fails on the materialized view: after B has left group 7 no refresh
  has run, and \<open>getLeaderboard 7\<close> still lists B, with a win and a score.
\<close>

theorem C3_stale_member_counterexample:
  "\<not> is_member 2 7 ex_mv_left
   \<and> map (\<lambda>e. (lb_user_id e, lb_games_won e, lb_total_score e)) (getLeaderboard 7 ex_mv_left)
       = [(1, 2, 2), (3, 0, 2), (2, 1, 1), (4, 0, 0)]"
  by code_simp

section \<open>Delayed finalization\<close>

lemma finalizes_at_36h: "finalizes_at d = d * ms_per_day + 36 * (60 * 60 * 1000)"
  by (simp add: finalizes_at_def ms_per_day_def)

lemma solved_on_finalized:
  "solved_on UtcDate g d (finalized_days t rs)
   = (if is_day_finalized t d then solved_on UtcDate g d rs else [])"
proof (cases "is_day_finalized t d")
  case True
  have "solved_on UtcDate g d (finalized_days t rs) = solved_on UtcDate g d rs"
    unfolding solved_on_def finalized_days_def filter_filter
    by (rule filter_cong) (use True in \<open>auto simp: is_day_finalized_def\<close>)
  with True show ?thesis by simp
next
  case False
  then have "solved_on UtcDate g d (finalized_days t rs) = []"
    by (auto simp: solved_on_def finalized_days_def filter_empty_conv is_day_finalized_def)
  with False show ?thesis by simp
qed

lemma spec_winners_cong:
  "solved_on k g d rs = solved_on k g d rs' \<Longrightarrow> spec_winners k g d rs = spec_winners k g d rs'"
  by (simp add: spec_winners_def)

lemma finalized_days_idem: "finalized_days t (finalized_days t rs) = finalized_days t rs"
  by (simp add: finalized_days_def)

text \<open>
  Claim C9.  With the UTC-12 view, the day \<open>d\<close> is finalized exactly when the time has
  reached 00:00 UTC of \<open>d\<close> plus 36 hours: it is pending from 00:00 UTC of \<open>d\<close> until
  then, and once finalized it stays finalized at every later time.  While \<open>d\<close> is
  pending none of its Results is in the input of the winner computation and its winner
  set is empty; once it is finalized all its Results are in the input and its winners are
  those of the full computation.  The view reads the Results through \<open>finalized_days\<close>
  only.
\<close>

theorem C9_finalization:
  "(is_day_finalized t d \<longleftrightarrow> t \<ge> d * ms_per_day + 36 * (60 * 60 * 1000))
   \<and> (d * ms_per_day \<le> t \<and> t < d * ms_per_day + 36 * (60 * 60 * 1000) \<longrightarrow> \<not> is_day_finalized t d)
   \<and> (is_day_finalized t d \<and> t \<le> t' \<longrightarrow> is_day_finalized t' d)
   \<and> (\<not> is_day_finalized t d \<longrightarrow>
        filter (\<lambda>r. dr_utc_date r = Some d) (finalized_days t rs) = []
        \<and> winner_set UtcDate g d (finalized_days t rs) = {})
   \<and> (is_day_finalized t d \<longrightarrow>
        filter (\<lambda>r. dr_utc_date r = Some d) (finalized_days t rs)
          = filter (\<lambda>r. dr_utc_date r = Some d) rs
        \<and> winner_set UtcDate g d (finalized_days t rs) = spec_winners UtcDate g d rs)
   \<and> leaderboard_scores_utc t (db\<lparr>daily_results := finalized_days t (daily_results db)\<rparr>)
       = leaderboard_scores_utc t db"
proof (intro conjI impI)
  show "is_day_finalized t d \<longleftrightarrow> t \<ge> d * ms_per_day + 36 * (60 * 60 * 1000)"
    by (simp add: is_day_finalized_def finalizes_at_36h)
  show "\<not> is_day_finalized t d"
    if "d * ms_per_day \<le> t \<and> t < d * ms_per_day + 36 * (60 * 60 * 1000)"
    using that by (simp add: is_day_finalized_def finalizes_at_36h)
  show "is_day_finalized t' d" if "is_day_finalized t d \<and> t \<le> t'"
    using that by (simp add: is_day_finalized_def)
  show "filter (\<lambda>r. dr_utc_date r = Some d) (finalized_days t rs) = []" if "\<not> is_day_finalized t d"
    using that by (auto simp: finalized_days_def filter_empty_conv is_day_finalized_def)
  show "winner_set UtcDate g d (finalized_days t rs) = {}" if "\<not> is_day_finalized t d"
    using that by (simp add: winner_set_spec spec_winners_def solved_on_finalized)
  show "filter (\<lambda>r. dr_utc_date r = Some d) (finalized_days t rs)
          = filter (\<lambda>r. dr_utc_date r = Some d) rs" if f: "is_day_finalized t d"
    unfolding finalized_days_def filter_filter
    by (rule filter_cong) (use f in \<open>auto simp: is_day_finalized_def\<close>)
  show "winner_set UtcDate g d (finalized_days t rs) = spec_winners UtcDate g d rs"
    if "is_day_finalized t d"
    unfolding winner_set_spec by (rule spec_winners_cong) (simp add: solved_on_finalized that)
  show "leaderboard_scores_utc t (db\<lparr>daily_results := finalized_days t (daily_results db)\<rparr>)
       = leaderboard_scores_utc t db"
    by (simp add: leaderboard_scores_utc_def finalized_days_idem)
qed

theorem C9_finalization_witness:
  "100 * ms_per_day \<le> 100 * ms_per_day + 3600000
   \<and> 100 * ms_per_day + 3600000 < 100 * ms_per_day + 36 * (60 * 60 * 1000)
   \<and> \<not> is_day_finalized (100 * ms_per_day + 3600000) 100
   \<and> winner_set UtcDate 7 100 (finalized_days (100 * ms_per_day + 3600000) ex_results) = {}
   \<and> is_day_finalized (101 * ms_per_day + 43200000) 100
   \<and> is_day_finalized (105 * ms_per_day) 100
   \<and> winner_set UtcDate 7 100 (finalized_days (101 * ms_per_day + 43200000) ex_results) = {1, 2}"
proof -
  let ?p = "100 * ms_per_day + 3600000" and ?f = "101 * ms_per_day + 43200000"
  have a: "100 * ms_per_day \<le> ?p \<and> ?p < 100 * ms_per_day + 36 * (60 * 60 * 1000)"
    by (simp add: ms_per_day_def)
  have b: "?f \<le> 105 * ms_per_day" by (simp add: ms_per_day_def)
  have c: "?f \<ge> 100 * ms_per_day + 36 * (60 * 60 * 1000)" by (simp add: ms_per_day_def)
  have s: "spec_winners UtcDate 7 100 ex_results = {1, 2}"
    by (simp add: spec_winners_def solved_on_def ex_results_def ex_result_def)
  note p = C9_finalization[of ?p 100 "105 * ms_per_day" ex_results 7]
  note f = C9_finalization[of ?f 100 "105 * ms_per_day" ex_results 7]
  from p a have 1: "\<not> is_day_finalized ?p 100" by blast
  with p have 2: "winner_set UtcDate 7 100 (finalized_days ?p ex_results) = {}" by blast
  from f c have 3: "is_day_finalized ?f 100" by blast
  with f b have 4: "is_day_finalized (105 * ms_per_day) 100" by blast
  from f 3 s have 5: "winner_set UtcDate 7 100 (finalized_days ?f ex_results) = {1, 2}" by simp
  from a 1 2 3 4 5 show ?thesis by blast
qed

section \<open>Result submission\<close>

lemma insert_ok:
  "insert_daily_result uid r db = Inr db' \<Longrightarrow>
   1 \<le> dr_guess_count r \<and> dr_guess_count r \<le> 6 \<and> daily_results db' = daily_results db @ [r]"
  by (auto simp: insert_daily_result_def split: if_splits)

lemma insert_no_conflict:
  "insert_daily_result uid r db = Inr db' \<Longrightarrow>
   \<not> list_ex (unique_conflict r) (daily_results db) \<and> \<not> list_ex (personal_conflict r) (daily_results db)"
  by (auto simp: insert_daily_result_def split: if_splits)

lemma results_unique_snoc:
  assumes "results_unique rs" "\<not> list_ex (unique_conflict r) rs" "\<not> list_ex (personal_conflict r) rs"
  shows "results_unique (rs @ [r])"
proof (cases "dr_group_id r")
  case None
  have "(dr_user_id r, dr_local_date r) \<notin> (\<lambda>r. (dr_user_id r, dr_local_date r)) ` {x \<in> set rs. dr_group_id x = None}"
    using assms(3) None by (auto simp: list_ex_iff personal_conflict_def)
  with assms(1) None show ?thesis by (simp add: results_unique_def)
next
  case (Some g)
  have "(dr_user_id r, dr_group_id r, dr_day_index r)
          \<notin> (\<lambda>r. (dr_user_id r, dr_group_id r, dr_day_index r)) ` {x \<in> set rs. dr_group_id x \<noteq> None}"
    using assms(2) Some by (auto simp: list_ex_iff unique_conflict_def)
  with assms(1) Some show ?thesis by (simp add: results_unique_def)
qed

lemma insert_results_unique:
  "insert_daily_result uid r db = Inr db' \<Longrightarrow> results_unique (daily_results db) \<Longrightarrow>
   results_unique (daily_results db')"
  using insert_ok[of uid r db db'] insert_no_conflict[of uid r db db'] results_unique_snoc
  by auto

lemma submit_loop_appends:
  "\<exists>new. daily_results (fst (submit_loop uid c params gs (db, n, errs))) = daily_results db @ new
         \<and> (\<forall>r \<in> set new. dr_local_date r = getLocalDate c)
         \<and> (results_unique (daily_results db) \<longrightarrow>
              results_unique (daily_results (fst (submit_loop uid c params gs (db, n, errs)))))"
proof (induction gs arbitrary: db n errs)
  case Nil
  then show ?case by simp
next
  case (Cons grp gs)
  let ?r = "\<lparr>dr_user_id = uid, dr_group_id = Some (gwm_id grp),
                       dr_day_index = calculateDayIndex c (gwm_joined_at grp),
                       dr_guess_count = guessCount params, dr_solved = solved params,
                       dr_submitted_at = now c, dr_local_date = getLocalDate c,
                       dr_timezone_offset = getTimezoneOffset c, dr_utc_date = None\<rparr>"
  let ?existing = "single (filter (\<lambda>r. daily_result_visible uid db r \<and> dr_user_id r = uid
                        \<and> dr_group_id r = Some (gwm_id grp) \<and> dr_day_index r = calculateDayIndex c (gwm_joined_at grp))
                        (daily_results db))"
  show ?case
  proof (cases "?existing \<noteq> None")
    case True
    then have "submit_loop uid c params (grp # gs) (db, n, errs) = submit_loop uid c params gs (db, n, errs)"
      by (simp add: Let_def)
    then show ?thesis using Cons.IH[of db n errs] by simp
  next
    case False
    show ?thesis
    proof (cases "insert_daily_result uid ?r db")
      case (Inl e)
      with False have "submit_loop uid c params (grp # gs) (db, n, errs)
                     = submit_loop uid c params gs (db, n, errs @ [(gwm_name grp, e)])"
        by (simp add: Let_def)
      then show ?thesis using Cons.IH[of db n "errs @ [(gwm_name grp, e)]"] by simp
    next
      case (Inr db')
      with False have eq: "submit_loop uid c params (grp # gs) (db, n, errs)
                     = submit_loop uid c params gs (db', Suc n, errs)"
        by (simp add: Let_def)
      from insert_ok[OF Inr] have d: "daily_results db' = daily_results db @ [?r]" by simp
      from Cons.IH[of db' "Suc n" errs] obtain new where
        new: "daily_results (fst (submit_loop uid c params gs (db', Suc n, errs))) = daily_results db' @ new"
          "\<forall>r \<in> set new. dr_local_date r = getLocalDate c"
          "results_unique (daily_results db') \<longrightarrow>
              results_unique (daily_results (fst (submit_loop uid c params gs (db', Suc n, errs))))"
        by blast
      show ?thesis
        unfolding eq
        by (rule exI[of _ "?r # new"]) (use new d insert_results_unique[OF Inr] in auto)
    qed
  qed
qed


lemma submitResult_loop:
  "gs \<noteq> [] \<Longrightarrow>
   snd (submitResult uid c gs params db) = fst (submit_loop uid c params gs (db, 0, []))
   \<and> submitted (fst (submitResult uid c gs params db))
       = fst (snd (submit_loop uid c params gs (db, 0, [])))"
  by (auto simp: submitResult_def split: prod.splits)

lemma submitResult_personal:
  "snd (submitResult uid c [] params db) = snd (submitPersonalResult uid c params db)"
  by (auto simp: submitResult_def split: prod.splits sum.splits)

lemma submitPersonalResult_appends:
  "\<exists>new. daily_results (snd (submitPersonalResult uid c params db)) = daily_results db @ new
         \<and> (\<forall>r \<in> set new. dr_local_date r = getLocalDate c)
         \<and> (results_unique (daily_results db) \<longrightarrow>
              results_unique (daily_results (snd (submitPersonalResult uid c params db))))"
proof -
  let ?r = "\<lparr>dr_user_id = uid, dr_group_id = None, dr_day_index = 0,
                       dr_guess_count = guessCount params, dr_solved = solved params,
                       dr_submitted_at = now c, dr_local_date = getLocalDate c,
                       dr_timezone_offset = getTimezoneOffset c, dr_utc_date = None\<rparr>"
  let ?existing = "single (filter (\<lambda>r. daily_result_visible uid db r \<and> dr_user_id r = uid
                        \<and> dr_group_id r = None \<and> dr_local_date r = getLocalDate c) (daily_results db))"
  have p: "submitPersonalResult uid c params db =
             (if ?existing \<noteq> None then (Inr (), db)
              else (case insert_daily_result uid ?r db of
                      Inl e \<Rightarrow> (Inl e, db) | Inr db' \<Rightarrow> (Inr (), db')))"
    by (simp add: submitPersonalResult_def Let_def)
  consider (same) "snd (submitPersonalResult uid c params db) = db"
    | (ins) db' where "insert_daily_result uid ?r db = Inr db'"
        "snd (submitPersonalResult uid c params db) = db'"
    unfolding p by (cases "insert_daily_result uid ?r db"; cases "?existing \<noteq> None") auto
  then show ?thesis
  proof cases
    case same
    then show ?thesis by simp
  next
    case ins
    from insert_ok[OF ins(1)] have d: "daily_results db' = daily_results db @ [?r]" by simp
    show ?thesis
      unfolding ins(2)
      by (rule exI[of _ "[?r]"]) (use d insert_results_unique[OF ins(1)] in auto)
  qed
qed

lemma submitResult_appends:
  "\<exists>new. daily_results (snd (submitResult uid c gs params db)) = daily_results db @ new
         \<and> (\<forall>r \<in> set new. dr_local_date r = getLocalDate c)
         \<and> (results_unique (daily_results db) \<longrightarrow>
              results_unique (daily_results (snd (submitResult uid c gs params db))))"
proof (cases "gs = []")
  case True
  then show ?thesis
    using submitPersonalResult_appends[of uid c params db] by (simp add: submitResult_personal)
next
  case False
  then show ?thesis
    using submit_loop_appends[of uid c params gs db 0 "[]"] by (simp add: submitResult_loop)
qed

lemma insert_conflict:
  "list_ex (unique_conflict r) (daily_results db) \<or> list_ex (personal_conflict r) (daily_results db)
   \<Longrightarrow> \<exists>e. insert_daily_result uid r db = Inl e"
  by (auto simp: insert_daily_result_def)

lemma resubmit_group:
  assumes "list_ex (\<lambda>r. dr_user_id r = uid \<and> dr_group_id r = Some (gwm_id grp)
              \<and> dr_day_index r = calculateDayIndex c (gwm_joined_at grp)) (daily_results db)"
  shows "snd (submitResult uid c [grp] params db) = db"
proof -
  let ?r = "\<lparr>dr_user_id = uid, dr_group_id = Some (gwm_id grp),
                       dr_day_index = calculateDayIndex c (gwm_joined_at grp),
                       dr_guess_count = guessCount params, dr_solved = solved params,
                       dr_submitted_at = now c, dr_local_date = getLocalDate c,
                       dr_timezone_offset = getTimezoneOffset c, dr_utc_date = None\<rparr>"
  have "list_ex (unique_conflict ?r) (daily_results db)"
    using assms by (auto simp: list_ex_iff unique_conflict_def)
  then obtain e where "insert_daily_result uid ?r db = Inl e"
    using insert_conflict[of ?r db uid] by blast
  then have "fst (submit_loop uid c params [grp] (db, 0, [])) = db"
    by (simp add: Let_def)
  then show ?thesis by (simp add: submitResult_loop)
qed

lemma resubmit_personal:
  assumes "list_ex (\<lambda>r. dr_user_id r = uid \<and> dr_group_id r = None
              \<and> dr_local_date r = getLocalDate c) (daily_results db)"
  shows "snd (submitResult uid c [] params db) = db"
proof -
  let ?r = "\<lparr>dr_user_id = uid, dr_group_id = None, dr_day_index = 0,
                       dr_guess_count = guessCount params, dr_solved = solved params,
                       dr_submitted_at = now c, dr_local_date = getLocalDate c,
                       dr_timezone_offset = getTimezoneOffset c, dr_utc_date = None\<rparr>"
  have "list_ex (personal_conflict ?r) (daily_results db)"
    using assms by (auto simp: list_ex_iff personal_conflict_def)
  then obtain e where "insert_daily_result uid ?r db = Inl e"
    using insert_conflict[of ?r db uid] by blast
  then have "snd (submitPersonalResult uid c params db) = db"
    by (simp add: submitPersonalResult_def Let_def)
  then show ?thesis by (simp add: submitResult_personal)
qed

lemma insert_invalid_guess:
  "\<not> (1 \<le> dr_guess_count r \<and> dr_guess_count r \<le> 6) \<Longrightarrow>
   insert_daily_result uid r db = Inl (if uid \<noteq> dr_user_id r then RlsViolation else CheckViolation)"
  by (simp add: insert_daily_result_def)

lemma submit_loop_invalid:
  "\<not> (1 \<le> guessCount params \<and> guessCount params \<le> 6) \<Longrightarrow>
   fst (submit_loop uid c params gs (db, n, errs)) = db
   \<and> fst (snd (submit_loop uid c params gs (db, n, errs))) = n"
proof (induction gs arbitrary: errs)
  case Nil
  then show ?case by simp
next
  case (Cons grp gs)
  then show ?case by (simp add: Let_def insert_invalid_guess)
qed

text \<open>
  Claim C10.  An insert into \<open>daily_results\<close> whose \<open>guess_count\<close> is outside 1..6 is
  rejected with an error; an insert that is accepted has its \<open>guess_count\<close> in 1..6; and a
  \<open>submitResult\<close> with such a guess count leaves the database as it was (no Result is
  stored, so none reaches a winner set or a score), reporting no submission to a group.
\<close>

theorem C10_guess_count_range:
  "(\<not> (1 \<le> dr_guess_count r \<and> dr_guess_count r \<le> 6) \<longrightarrow>
       (\<exists>e. insert_daily_result uid r db = Inl e))
   \<and> (insert_daily_result uid r db = Inr db' \<longrightarrow>
       1 \<le> dr_guess_count r \<and> dr_guess_count r \<le> 6)
   \<and> (\<not> (1 \<le> guessCount params \<and> guessCount params \<le> 6) \<longrightarrow>
       snd (submitResult uid c gs params db) = db
       \<and> (gs \<noteq> [] \<longrightarrow> submitted (fst (submitResult uid c gs params db)) = 0))"
proof (intro conjI impI)
  show "\<exists>e. insert_daily_result uid r db = Inl e"
    if "\<not> (1 \<le> dr_guess_count r \<and> dr_guess_count r \<le> 6)"
    using insert_invalid_guess[OF that] by blast
  show "1 \<le> dr_guess_count r" "dr_guess_count r \<le> 6" if "insert_daily_result uid r db = Inr db'"
    using insert_ok[OF that] by simp_all
next
  assume inv: "\<not> (1 \<le> guessCount params \<and> guessCount params \<le> 6)"
  show "snd (submitResult uid c gs params db) = db"
  proof (cases "gs = []")
    case True
    then show ?thesis
      using inv by (simp add: submitResult_def submitPersonalResult_def Let_def insert_invalid_guess)
  next
    case False
    then show ?thesis
      using submit_loop_invalid[OF inv, of uid c gs db 0 "[]"]
      by (simp add: submitResult_loop)
  qed
  show "submitted (fst (submitResult uid c gs params db)) = 0" if "gs \<noteq> []"
    using that submit_loop_invalid[OF inv, of uid c gs db 0 "[]"]
    by (simp add: submitResult_loop)
qed

theorem C10_guess_count_range_witness:
  "\<not> (1 \<le> dr_guess_count (ex_result 1 105 7 True) \<and> dr_guess_count (ex_result 1 105 7 True) \<le> 6)
   \<and> insert_daily_result 1 (ex_result 1 105 7 True) ex_db = Inl CheckViolation
   \<and> (\<exists>db'. insert_daily_result 1 (ex_result 1 105 6 True) ex_db = Inr db')
   \<and> dr_guess_count (ex_result 1 105 6 True) \<le> 6
   \<and> snd (submitResult 2 ex_clock [ex5_member (98 * ms_per_day)]
             \<lparr>guessCount = 0, solved = False\<rparr> ex5_db1) = ex5_db1
   \<and> submitted (fst (submitResult 2 ex_clock [ex5_member (98 * ms_per_day)]
             \<lparr>guessCount = 0, solved = False\<rparr> ex5_db1)) = 0"
proof -
  let ?bad = "ex_result 1 105 7 True" and ?good = "ex_result 1 105 6 True"
  let ?params = "\<lparr>guessCount = 0, solved = False\<rparr>"
  have a: "\<not> (1 \<le> dr_guess_count ?bad \<and> dr_guess_count ?bad \<le> 6)"
    by (simp add: ex_result_def)
  have b: "insert_daily_result 1 ?bad ex_db = Inl CheckViolation" by code_simp
  have c: "insert_daily_result 1 ?good ex_db
           = Inr (ex_db\<lparr>daily_results := daily_results ex_db @ [?good]\<rparr>)" by code_simp
  have d: "\<not> (1 \<le> guessCount ?params \<and> guessCount ?params \<le> 6)" by simp
  have e: "[ex5_member (98 * ms_per_day)] \<noteq> []" by simp
  from C10_guess_count_range[where r = ?good and uid = 1 and db = ex_db
        and db' = "ex_db\<lparr>daily_results := daily_results ex_db @ [?good]\<rparr>"] c
  have 1: "dr_guess_count ?good \<le> 6" by blast
  from C10_guess_count_range[where uid = 2 and db = ex5_db1 and params = ?params
        and c = ex_clock and gs = "[ex5_member (98 * ms_per_day)]"] d e
  have 2: "snd (submitResult 2 ex_clock [ex5_member (98 * ms_per_day)] ?params ex5_db1) = ex5_db1"
    and 3: "submitted (fst (submitResult 2 ex_clock [ex5_member (98 * ms_per_day)] ?params ex5_db1)) = 0"
    by blast+
  from a b c 1 2 3 show ?thesis by blast
qed

text \<open>
  Claim C5, as amended.  \<open>submitResult\<close> only appends to the stored Results and keeps them
  unique per (user, group, \<open>day_index\<close>) for group rows and per (user, \<open>local_date\<close>) for
  personal plays; an insert that repeats such a key is rejected with an error; and a
  submission by a user who already has a Result for the group and \<open>day_index\<close> (or, with no
  group, a personal play for the local date) leaves the database as it was.
\<close>

theorem C5_unique_per_day_index:
  "(results_unique (daily_results db) \<longrightarrow>
      results_unique (daily_results (snd (submitResult uid c gs params db))))
   \<and> (\<exists>new. daily_results (snd (submitResult uid c gs params db)) = daily_results db @ new)
   \<and> (list_ex (unique_conflict r) (daily_results db) \<or> list_ex (personal_conflict r) (daily_results db)
        \<longrightarrow> (\<exists>e. insert_daily_result uid r db = Inl e))
   \<and> (list_ex (\<lambda>r. dr_user_id r = uid \<and> dr_group_id r = Some (gwm_id grp)
              \<and> dr_day_index r = calculateDayIndex c (gwm_joined_at grp)) (daily_results db)
        \<longrightarrow> snd (submitResult uid c [grp] params db) = db)
   \<and> (list_ex (\<lambda>r. dr_user_id r = uid \<and> dr_group_id r = None
              \<and> dr_local_date r = getLocalDate c) (daily_results db)
        \<longrightarrow> snd (submitResult uid c [] params db) = db)"
  using submitResult_appends[of uid c gs params db] insert_conflict[of r db uid]
    resubmit_group[of uid grp c db params] resubmit_personal[of uid c db params]
  by blast

theorem C5_unique_per_day_index_witness:
  "results_unique (daily_results ex5_db3) \<and> results_unique (daily_results ex5_db4)
   \<and> list_ex (unique_conflict (ex_result 1 100 4 True)) (daily_results ex_db)
   \<and> insert_daily_result 1 (ex_result 1 100 4 True) ex_db = Inl UniqueViolation
   \<and> snd (submitResult 2 \<lparr>now = 100 * ms_per_day + 10800000, tz_offset = 0\<rparr>
             [ex5_member (98 * ms_per_day)] \<lparr>guessCount = 5, solved = True\<rparr> ex5_db2) = ex5_db2
   \<and> snd (submitResult 3 ex_clock [] \<lparr>guessCount = 5, solved = True\<rparr>
             (snd (submitResult 3 ex_clock [] \<lparr>guessCount = 4, solved = True\<rparr> ex5_db0)))
       = snd (submitResult 3 ex_clock [] \<lparr>guessCount = 4, solved = True\<rparr> ex5_db0)"
proof -
  let ?c = "\<lparr>now = 100 * ms_per_day + 10800000, tz_offset = 0\<rparr>"
  let ?p = "\<lparr>guessCount = 5, solved = True\<rparr>"
  let ?q = "\<lparr>guessCount = 3, solved = True\<rparr>"
  let ?db = "snd (submitResult 3 ex_clock [] \<lparr>guessCount = 4, solved = True\<rparr> ex5_db0)"
  have u: "results_unique (daily_results ex5_db3)" by code_simp
  have x: "list_ex (unique_conflict (ex_result 1 100 4 True)) (daily_results ex_db)" by code_simp
  have y: "insert_daily_result 1 (ex_result 1 100 4 True) ex_db = Inl UniqueViolation"
    by code_simp
  have g: "list_ex (\<lambda>r. dr_user_id r = 2 \<and> dr_group_id r = Some (gwm_id (ex5_member (98 * ms_per_day)))
              \<and> dr_day_index r = calculateDayIndex ?c (gwm_joined_at (ex5_member (98 * ms_per_day))))
            (daily_results ex5_db2)" by code_simp
  have h: "list_ex (\<lambda>r. dr_user_id r = 3 \<and> dr_group_id r = None
              \<and> dr_local_date r = getLocalDate ex_clock) (daily_results ?db)" by code_simp
  from C5_unique_per_day_index[where db = ex5_db3 and uid = 2 and c = ?c
         and gs = "[ex5_member (100 * ms_per_day + 7200000)]" and params = ?q] u
  have 1: "results_unique (daily_results ex5_db4)" unfolding ex5_db4_def by blast
  from C5_unique_per_day_index[where db = ex5_db2 and uid = 2 and c = ?c and params = ?p
         and grp = "ex5_member (98 * ms_per_day)"] g
  have 2: "snd (submitResult 2 ?c [ex5_member (98 * ms_per_day)] ?p ex5_db2) = ex5_db2" by blast
  from C5_unique_per_day_index[where db = ?db and uid = 3 and c = ex_clock and params = ?p] h
  have 3: "snd (submitResult 3 ex_clock [] ?p ?db) = ?db" by blast
  from u 1 x y 2 3 show ?thesis by blast
qed

text \<open>
  Claim C5 as stated, the day key being the local date, fails.  In the scenario B's second
  submission on local date 100 is accepted, since the new membership gives it
  \<open>day_index = 0\<close>: two Results of B in group 7 carry local date 100, and the local-date
  leaderboard counts two wins for B.
\<close>

theorem C5_local_date_counterexample:
  "one_result_per_day LocalDate (daily_results ex5_db3)
   \<and> group_members ex5_db3 = group_members ex5_db0 @
        [\<lparr>gm_user_id = 2, gm_group_id = 7, gm_joined_at = 100 * ms_per_day + 7200000,
          gm_is_admin = False\<rparr>]
   \<and> map (\<lambda>r. (dr_user_id r, dr_group_id r, dr_local_date r, dr_day_index r)) (daily_results ex5_db3)
       = [(2, Some 7, 100, 2)]
   \<and> map (\<lambda>r. (dr_user_id r, dr_group_id r, dr_local_date r, dr_day_index r)) (daily_results ex5_db4)
       = [(2, Some 7, 100, 2), (2, Some 7, 100, 0)]
   \<and> \<not> one_result_per_day LocalDate (daily_results ex5_db4)
   \<and> map (\<lambda>e. (lb_user_id e, lb_games_won e)) (getLeaderboard 7 ex5_db4) = [(2, 2), (1, 0)]"
  by code_simp

section \<open>The local date as day key\<close>

lemma local_day_bounds:
  "getLocalDate c * ms_per_day \<le> local_time c (now c)
   \<and> local_time c (now c) < (getLocalDate c + 1) * ms_per_day"
proof -
  have pos: "0 < ms_per_day" by (simp add: ms_per_day_def)
  have "local_time c (now c) = getLocalDate c * ms_per_day + local_time c (now c) mod ms_per_day"
    by (simp add: getLocalDate_def)
  moreover have "0 \<le> local_time c (now c) mod ms_per_day" "local_time c (now c) mod ms_per_day < ms_per_day"
    using pos by simp_all
  ultimately show ?thesis by (simp add: algebra_simps)
qed

lemma grouping_columns_simps [simp]:
  "fst (grouping_columns r) = dr_user_id r"
  "fst (snd (grouping_columns r)) = dr_group_id r"
  "fst (snd (snd (grouping_columns r))) = dr_local_date r"
  "fst (snd (snd (snd (grouping_columns r)))) = dr_guess_count r"
  "snd (snd (snd (snd (grouping_columns r)))) = dr_solved r"
  by (simp_all add: grouping_columns_def)

lemma min_on_columns_proj:
  "min_list (map dr_guess_count (solved_on LocalDate g d rs))
   = min_on_columns (map grouping_columns rs) g d"
  by (simp add: min_on_columns_def solved_on_def filter_map o_def)

lemma is_point_earner_proj:
  "is_point_earner LocalDate rs r = earns_on_columns (map grouping_columns rs) (grouping_columns r)"
  by (simp add: is_point_earner_def earns_on_columns_def min_on_columns_proj split: option.splits)

lemma point_earners_proj:
  "point_earners LocalDate rs
   = map (\<lambda>x. (fst x, fst (snd x), 1))
       (filter (\<lambda>x. snd (snd (snd (snd x))) \<and> earns_on_columns (map grouping_columns rs) x)
          (map grouping_columns rs))"
  by (simp add: point_earners_def point_earner_rows_filter filter_map o_def is_point_earner_proj)

lemma earned_scores_proj:
  "map grouping_columns rs = map grouping_columns rs' \<Longrightarrow>
   earned_scores LocalDate rs = earned_scores LocalDate rs'"
  by (simp add: earned_scores_def point_earners_proj)

text \<open>The earlier \<open>getLocalDate\<close> gave the UTC date, the date of a client at offset 0.\<close>

lemma getLocalDate_iso_utc: "getLocalDate_iso c = getLocalDate (c\<lparr>tz_offset := 0\<rparr>)"
  by (simp add: getLocalDate_iso_def getLocalDate_def local_time_def)

text \<open>
  Claim C4.  Every Result that \<open>submitResult\<close> stores carries as \<open>local_date\<close>, the day key
  of the local-date query, the value of \<open>getLocalDate\<close> at the submission: the day in
  which the submitter's local time (UTC time minus the time zone offset) lies.  The
  local-date query reads a Result through its stored user, group, local date, guess count
  and solved flag only: nothing is recomputed from \<open>submitted_at\<close> or the offset.
\<close>

theorem C4_local_date:
  "(\<exists>new. daily_results (snd (submitResult uid c gs params db)) = daily_results db @ new
          \<and> (\<forall>r \<in> set new. key_of LocalDate r = Some (getLocalDate c)))
   \<and> getLocalDate c * ms_per_day \<le> now c - tz_offset c * 60000
   \<and> now c - tz_offset c * 60000 < (getLocalDate c + 1) * ms_per_day
   \<and> (map grouping_columns rs = map grouping_columns rs' \<longrightarrow>
        earned_scores LocalDate rs = earned_scores LocalDate rs')"
  using submitResult_appends[of uid c gs params db] local_day_bounds[of c]
    earned_scores_proj[of rs rs']
  by (auto simp: local_time_def)

theorem C4_local_date_witness:
  "getLocalDate ex_clock = 99 \<and> getLocalDate_iso ex_clock = 100
   \<and> daily_results ex5_db1 = []
   \<and> map (key_of LocalDate)
        (daily_results (snd (submitResult 2 ex_clock [ex5_member (98 * ms_per_day)]
                               \<lparr>guessCount = 3, solved = True\<rparr> ex5_db1))) = [Some 99]
   \<and> map grouping_columns ex_results = map grouping_columns ex_results_moved
   \<and> earned_scores LocalDate ex_results = earned_scores LocalDate ex_results_moved"
proof -
  let ?db = "snd (submitResult 2 ex_clock [ex5_member (98 * ms_per_day)]
                    \<lparr>guessCount = 3, solved = True\<rparr> ex5_db1)"
  have a: "getLocalDate ex_clock = 99" by code_simp
  have b: "getLocalDate_iso ex_clock = 100" by code_simp
  have e: "daily_results ex5_db1 = []" by code_simp
  have n: "length (daily_results ?db) = 1" by code_simp
  have g: "map grouping_columns ex_results = map grouping_columns ex_results_moved" by code_simp
  note t = C4_local_date[where uid = 2 and c = ex_clock
             and gs = "[ex5_member (98 * ms_per_day)]"
             and params = "\<lparr>guessCount = 3, solved = True\<rparr>" and db = ex5_db1
             and rs = ex_results and rs' = ex_results_moved]
  from t e have "\<forall>r \<in> set (daily_results ?db). key_of LocalDate r = Some (getLocalDate ex_clock)"
    by auto
  with n a have k: "map (key_of LocalDate) (daily_results ?db) = [Some 99]"
    by (cases "daily_results ?db") auto
  from t g have s: "earned_scores LocalDate ex_results = earned_scores LocalDate ex_results_moved"
    by blast
  from a b e k g s show ?thesis by blast
qed

end
